theory Spec2Isabelle
  imports Complex_Main "HOL-Library.AList"
begin

section \<open>Data model of the orchestrator\<close>

text \<open>
  The orchestrator of \<^verbatim>\<open>ai_metaverse/orchestrator.py\<close> keeps three mutable fields: the
  registry of assistants, the queue of pending tasks and the dictionary of results. Python
  dictionaries keep insertion order and have one entry per key, so a dictionary is an
  association list read with \<open>map_of\<close> and written with \<open>AList.update\<close> (which replaces
  the value of a key in place and appends a new key at the end).

  The task dictionaries are objects that the caller and the queue share: \<^verbatim>\<open>submit_task\<close>
  writes into the caller's own dictionary and appends that very object to the queue. So the
  dictionaries live in a store, \<open>task_objects\<close>, and the queue holds references into it.
\<close>

datatype pyval =
    PNone
  | PBool bool
  | PInt int
  | PFloat real
  | PStr string
  | PList "pyval list"
  | PDict "(string \<times> pyval) list"

type_synonym pydict = "(string \<times> pyval) list"

text \<open>
  The values that can be keys of a dictionary: \<^verbatim>\<open>hash\<close> raises \<^verbatim>\<open>TypeError\<close> on a list
  and on a dictionary.
\<close>

fun hashable :: "pyval \<Rightarrow> bool" where
  "hashable (PList xs) = False"
| "hashable (PDict d) = False"
| "hashable v = True"

text \<open>\<^verbatim>\<open>d.get(k)\<close>: the value of the key, or \<^verbatim>\<open>None\<close>.\<close>

definition py_get :: "pydict \<Rightarrow> string \<Rightarrow> pyval" where
  "py_get d k = (case map_of d k of None \<Rightarrow> PNone | Some v \<Rightarrow> v)"

text \<open>
  Exceptions are values. \<open>exn_str\<close> is \<^verbatim>\<open>str(e)\<close>; \<open>WorkerError m\<close> stands for any
  exception raised inside an assistant whose \<^verbatim>\<open>str\<close> is \<open>m\<close>.
\<close>

datatype exn = KeyError string | ValueError string | TypeError string | WorkerError string

fun exn_str :: "exn \<Rightarrow> string" where
  "exn_str (KeyError k) = [CHR 0x27] @ k @ [CHR 0x27]"
| "exn_str (ValueError m) = m"
| "exn_str (TypeError m) = m"
| "exn_str (WorkerError m) = m"

text \<open>
  A task is the dictionary handed to \<^verbatim>\<open>submit_task\<close>: its \<^verbatim>\<open>type\<close> key (absent, or
  any value), the keys the orchestrator writes into it, and every other key in
  \<open>task_fields\<close>.
\<close>

record task =
  task_type :: "pyval option"
  task_fields :: pydict
  task_id :: "string option"
  task_status :: "string option"
  task_timestamp :: "real option"
  assigned_assistants :: "string list option"

text \<open>
  An assistant is an object with a state and the two methods the orchestrator calls.
  \<^verbatim>\<open>process_task\<close> returns a dictionary or raises; \<^verbatim>\<open>handle_feedback\<close> returns nothing,
  may change the assistant, or raises.
\<close>

record 'w assistant =
  wstate :: 'w
  assistant_process_task :: "'w \<Rightarrow> task \<Rightarrow> exn + pydict"
  assistant_handle_feedback :: "'w \<Rightarrow> pyval \<Rightarrow> exn + 'w"

record combined_result =
  cr_status :: string
  cr_timestamp :: real
  components :: "(string \<times> pydict) list"
  generated_code :: "pyval option"
  syntax_validation :: "pyval option"
  performance_analysis :: "pyval option"

record feedback =
  assistant_feedback :: "(string \<times> pyval) list option"
  feedback_fields :: pydict

record task_result =
  status :: string
  assistant_results :: "(string \<times> pydict) list"
  final_result :: "combined_result option"
  feedback :: "feedback option"

type_synonym ref = nat

record 'w orchestrator =
  assistants :: "(string \<times> 'w assistant) list"
  task_queue :: "ref list"
  results :: "(string \<times> task_result) list"
  task_objects :: "ref \<Rightarrow> task"

text \<open>
  A public operation returns its value or the exception it raised, together with the
  orchestrator as the call left it (an exception does not undo earlier writes).
\<close>

type_synonym ('a, 'w) outcome = "(exn + 'a) \<times> 'w orchestrator"

section \<open>Formatting of integers\<close>

text \<open>\<^verbatim>\<open>str(n)\<close> for the integers of an f-string, and \<^verbatim>\<open>int(x)\<close> on a float.\<close>

definition digit_char :: "nat \<Rightarrow> char" where
  "digit_char d = ''0123456789'' ! d"

fun str_nat :: "nat \<Rightarrow> string" where
  "str_nat n = (if n < 10 then [digit_char n] else str_nat (n div 10) @ [digit_char (n mod 10)])"

declare str_nat.simps [simp del]

definition str_int :: "int \<Rightarrow> string" where
  "str_int i = (if i < 0 then CHR ''-'' # str_nat (nat (- i)) else str_nat (nat i))"

definition py_int :: "real \<Rightarrow> int" where
  "py_int x = (if 0 \<le> x then \<lfloor>x\<rfloor> else \<lceil>x\<rceil>)"

section \<open>The orchestrator\<close>

subsection \<open>Construction\<close>

text \<open>
  The keys of \<^verbatim>\<open>config.ASSISTANTS\<close> in their order, with the capabilities of each.
\<close>

definition ASSISTANTS :: "(string \<times> string list) list" where
  "ASSISTANTS =
    [(''Earth'', [''code_generation'', ''structure_analysis'']),
     (''Moon'', [''error_detection'', ''code_correction'']),
     (''Sun'', [''performance_analysis'', ''code_optimization'']),
     (''Mercury'', [''test_generation'', ''coverage_analysis'']),
     (''Venus'', [''regression_testing'', ''test_automation'']),
     (''Mars'', [''security_analysis'', ''vulnerability_detection'']),
     (''Jupiter'', [''documentation_generation'', ''code_analysis''])]"

text \<open>
  \<^verbatim>\<open>initialize_assistants\<close>: one assistant for every configured name that has a class.
  The classes are the parameter \<open>assistant_classes\<close>, the objects their constructors
  build. \<open>init\<close> is \<^verbatim>\<open>__init__\<close>; \<open>objects\<close> are the task dictionaries of the program.
\<close>

fun initialize_assistants ::
  "(string \<times> 'w assistant) list \<Rightarrow> (string \<times> string list) list \<Rightarrow>
   (string \<times> 'w assistant) list \<Rightarrow> (string \<times> 'w assistant) list" where
  "initialize_assistants assistant_classes [] acc = acc"
| "initialize_assistants assistant_classes ((name, config) # rest) acc =
     (case map_of assistant_classes name of
        Some a \<Rightarrow> initialize_assistants assistant_classes rest (AList.update name a acc)
      | None \<Rightarrow> initialize_assistants assistant_classes rest acc)"

definition init ::
  "'w assistant \<Rightarrow> 'w assistant \<Rightarrow> 'w assistant \<Rightarrow> (ref \<Rightarrow> task) \<Rightarrow> 'w orchestrator" where
  "init earth moon sun objects =
     \<lparr>assistants =
        initialize_assistants [(''Earth'', earth), (''Moon'', moon), (''Sun'', sun)] ASSISTANTS [],
      task_queue = [],
      results = [],
      task_objects = objects\<rparr>"

subsection \<open>Submission and routing\<close>

text \<open>
  \<^verbatim>\<open>task_assistant_mapping.get(task_type, ['Earth'])\<close> hashes \<^verbatim>\<open>task_type\<close>: a list or a
  dictionary raises \<^verbatim>\<open>TypeError\<close>. The keys of the table are strings, and no other value
  equals a string.
\<close>

definition unhashable_type :: "pyval \<Rightarrow> exn" where
  "unhashable_type v =
     TypeError (''unhashable type: '' @ [CHR 0x27]
                @ (case v of PList xs \<Rightarrow> ''list'' | _ \<Rightarrow> ''dict'') @ [CHR 0x27])"

definition determine_required_assistants :: "task \<Rightarrow> exn + string list" where
  "determine_required_assistants t =
     (let task_type = (case task_type t of None \<Rightarrow> PStr [] | Some v \<Rightarrow> v);
          task_assistant_mapping =
            [(''code_generation'', [''Earth'']),
             (''syntax_check'', [''Moon'']),
             (''performance_optimization'', [''Sun'']),
             (''full_pipeline'', [''Earth'', ''Moon'', ''Sun''])]
      in if \<not> hashable task_type then Inl (unhashable_type task_type)
         else case task_type of
                PStr ty \<Rightarrow>
                  (case map_of task_assistant_mapping ty of
                     None \<Rightarrow> Inr [''Earth'']
                   | Some names \<Rightarrow> Inr names)
              | _ \<Rightarrow> Inr [''Earth''])"

text \<open>
  \<^verbatim>\<open>submit_task\<close> reads the clock twice: \<open>now_id\<close> for the id and \<open>now_ts\<close> for the
  timestamp. Its argument is a reference: the three writes into the dictionary are done
  when the routing is called, and stay when the routing raises.
\<close>

definition new_task_id :: "real \<Rightarrow> nat \<Rightarrow> string" where
  "new_task_id now_id queue_len = ''task_'' @ str_int (py_int now_id) @ ''_'' @ str_nat queue_len"

definition pending_result :: task_result where
  "pending_result =
     \<lparr>status = ''pending'', assistant_results = [], final_result = None, feedback = None\<rparr>"

definition submit_task ::
  "'w orchestrator \<Rightarrow> real \<Rightarrow> real \<Rightarrow> ref \<Rightarrow> (string, 'w) outcome" where
  "submit_task s now_id now_ts a =
     (let tid = new_task_id now_id (length (task_queue s));
          t1 = (task_objects s a)\<lparr>task_id := Some tid, task_status := Some ''pending'',
                                   task_timestamp := Some now_ts\<rparr>;
          s1 = s\<lparr>task_objects := (task_objects s)(a := t1)\<rparr>
      in case determine_required_assistants t1 of
           Inl e \<Rightarrow> (Inl e, s1)
         | Inr names \<Rightarrow>
             (Inr tid,
              s1\<lparr>task_objects := (task_objects s)(a := t1\<lparr>assigned_assistants := Some names\<rparr>),
                 task_queue := task_queue s @ [a],
                 results := AList.update tid pending_result (results s)\<rparr>))"

subsection \<open>Processing\<close>

definition process_task_with_assistant ::
  "'w orchestrator \<Rightarrow> task \<Rightarrow> string \<Rightarrow> exn + pydict" where
  "process_task_with_assistant s t assistant_name =
     (case map_of (assistants s) assistant_name of
        None \<Rightarrow> Inl (ValueError (''Assistant '' @ assistant_name @ '' not found''))
      | Some a \<Rightarrow> assistant_process_task a (wstate a) t)"

definition error_entry :: "exn \<Rightarrow> pydict" where
  "error_entry e = [(''status'', PStr ''error''), (''error'', PStr (exn_str e))]"

text \<open>\<^verbatim>\<open>self.results[task_id]['assistant_results'][assistant_name] = entry\<close>\<close>

definition store_result ::
  "'w orchestrator \<Rightarrow> string \<Rightarrow> string \<Rightarrow> pydict \<Rightarrow> (unit, 'w) outcome" where
  "store_result s tid assistant_name entry =
     (case map_of (results s) tid of
        None \<Rightarrow> (Inl (KeyError tid), s)
      | Some r \<Rightarrow>
          (Inr (),
           s\<lparr>results :=
               AList.update tid
                 (r\<lparr>assistant_results := AList.update assistant_name entry (assistant_results r)\<rparr>)
                 (results s)\<rparr>))"

text \<open>
  The body of the loop over the futures: the \<^verbatim>\<open>try\<close> block covers the call of the
  assistant and the write of its result, and the handler writes the error entry.
\<close>

definition collect_result ::
  "'w orchestrator \<Rightarrow> task \<Rightarrow> string \<Rightarrow> string \<Rightarrow> (unit, 'w) outcome" where
  "collect_result s t tid assistant_name =
     (case process_task_with_assistant s t assistant_name of
        Inl e \<Rightarrow> store_result s tid assistant_name (error_entry e)
      | Inr result \<Rightarrow>
          (case store_result s tid assistant_name result of
             (Inl e, s') \<Rightarrow> store_result s' tid assistant_name (error_entry e)
           | (Inr u, s') \<Rightarrow> (Inr u, s')))"

fun collect_results ::
  "'w orchestrator \<Rightarrow> task \<Rightarrow> string \<Rightarrow> string list \<Rightarrow> (unit, 'w) outcome" where
  "collect_results s t tid [] = (Inr (), s)"
| "collect_results s t tid (assistant_name # rest) =
     (case collect_result s t tid assistant_name of
        (Inl e, s') \<Rightarrow> (Inl e, s')
      | (Inr u, s') \<Rightarrow> collect_results s' t tid rest)"

definition all_successful :: "(string \<times> pydict) list \<Rightarrow> bool" where
  "all_successful ar = list_all (\<lambda>result. map_of result ''status'' = Some (PStr ''success'')) (map snd ar)"

definition extract_field :: "(string \<times> pydict) list \<Rightarrow> string \<Rightarrow> string \<Rightarrow> pyval option" where
  "extract_field ar assistant_name key =
     (case map_of ar assistant_name of None \<Rightarrow> None | Some d \<Rightarrow> Some (py_get d key))"

text \<open>The dictionary \<^verbatim>\<open>combined_result\<close> that \<^verbatim>\<open>_combine_results\<close> builds.\<close>

definition build_combined_result :: "real \<Rightarrow> (string \<times> pydict) list \<Rightarrow> combined_result" where
  "build_combined_result now ar =
     \<lparr>cr_status = (if all_successful ar then ''success'' else ''partial_success''),
      cr_timestamp = now,
      components = ar,
      generated_code = extract_field ar ''Earth'' ''generated_code'',
      syntax_validation = extract_field ar ''Moon'' ''errors'',
      performance_analysis = extract_field ar ''Sun'' ''performance_analysis''\<rparr>"

definition combine_results :: "'w orchestrator \<Rightarrow> real \<Rightarrow> string \<Rightarrow> (unit, 'w) outcome" where
  "combine_results s now tid =
     (case map_of (results s) tid of
        None \<Rightarrow> (Inl (KeyError tid), s)
      | Some task_results \<Rightarrow>
          (let combined_result = build_combined_result now (assistant_results task_results)
           in (Inr (),
               s\<lparr>results :=
                   AList.update tid
                     (task_results\<lparr>status := cr_status combined_result,
                                   final_result := Some combined_result\<rparr>)
                     (results s)\<rparr>)))"

text \<open>
  One turn of the \<^verbatim>\<open>while\<close> loop, after the reference \<open>a\<close> has been popped: \<open>now\<close> is
  the clock reading of \<^verbatim>\<open>_combine_results\<close>.
\<close>

definition process_one :: "'w orchestrator \<Rightarrow> real \<Rightarrow> ref \<Rightarrow> (unit, 'w) outcome" where
  "process_one s now a =
     (let task = task_objects s a
      in case task_id task of
           None \<Rightarrow> (Inl (KeyError ''task_id''), s)
         | Some tid \<Rightarrow>
             (case assigned_assistants task of
                None \<Rightarrow> (Inl (KeyError ''assigned_assistants''), s)
              | Some names \<Rightarrow>
                  (case collect_results s task tid names of
                     (Inl e, s') \<Rightarrow> (Inl e, s')
                   | (Inr u, s') \<Rightarrow> combine_results s' now tid)))"

text \<open>
  The \<^verbatim>\<open>while self.task_queue\<close> loop. Nothing in a turn appends to the queue, so the loop
  runs over the queue as it is at the call; \<open>clock i\<close> is the clock reading of turn \<open>i\<close>.
\<close>

fun process_loop ::
  "(nat \<Rightarrow> real) \<Rightarrow> nat \<Rightarrow> ref list \<Rightarrow> 'w orchestrator \<Rightarrow> (unit, 'w) outcome" where
  "process_loop clock i [] s = (Inr (), s)"
| "process_loop clock i (a # rest) s =
     (case process_one (s\<lparr>task_queue := rest\<rparr>) (clock i) a of
        (Inl e, s') \<Rightarrow> (Inl e, s')
      | (Inr u, s') \<Rightarrow> process_loop clock (Suc i) rest s')"

text \<open>\<^verbatim>\<open>ThreadPoolExecutor(max_workers=0)\<close> raises \<^verbatim>\<open>ValueError\<close>.\<close>

definition process_tasks :: "'w orchestrator \<Rightarrow> (nat \<Rightarrow> real) \<Rightarrow> (unit, 'w) outcome" where
  "process_tasks s clock =
     (if length (assistants s) = 0
      then (Inl (ValueError ''max_workers must be greater than 0''), s)
      else process_loop clock 0 (task_queue s) s)"

subsection \<open>Status and feedback\<close>

datatype task_status_reply =
    TaskRecord task_result
  | NotFound (nf_status: string) (nf_error: string)

definition get_task_status :: "'w orchestrator \<Rightarrow> string \<Rightarrow> (task_status_reply, 'w) outcome" where
  "get_task_status s tid =
     (Inr (case map_of (results s) tid of
             Some r \<Rightarrow> TaskRecord r
           | None \<Rightarrow> NotFound ''not_found'' (''Task '' @ tid @ '' not found'')),
      s)"

fun route_feedback ::
  "'w orchestrator \<Rightarrow> (string \<times> pyval) list \<Rightarrow> (unit, 'w) outcome" where
  "route_feedback s [] = (Inr (), s)"
| "route_feedback s ((assistant_name, assistant_fb) # rest) =
     (case map_of (assistants s) assistant_name of
        None \<Rightarrow> route_feedback s rest
      | Some a \<Rightarrow>
          (case assistant_handle_feedback a (wstate a) assistant_fb of
             Inl e \<Rightarrow> (Inl e, s)
           | Inr w' \<Rightarrow>
               route_feedback
                 (s\<lparr>assistants := AList.update assistant_name (a\<lparr>wstate := w'\<rparr>) (assistants s)\<rparr>)
                 rest))"

text \<open>\<^verbatim>\<open>feedback.get('assistant_feedback', {}).items()\<close>\<close>

definition feedback_items :: "feedback \<Rightarrow> (string \<times> pyval) list" where
  "feedback_items fb = (case assistant_feedback fb of None \<Rightarrow> [] | Some items \<Rightarrow> items)"

definition handle_feedback ::
  "'w orchestrator \<Rightarrow> string \<Rightarrow> feedback \<Rightarrow> (unit, 'w) outcome" where
  "handle_feedback s tid fb =
     (case map_of (results s) tid of
        None \<Rightarrow> (Inr (), s)
      | Some _ \<Rightarrow>
          (case route_feedback s (feedback_items fb) of
             (Inl e, s') \<Rightarrow> (Inl e, s')
           | (Inr u, s') \<Rightarrow>
               (case map_of (results s') tid of
                  None \<Rightarrow> (Inl (KeyError tid), s')
                | Some r \<Rightarrow>
                    (Inr (),
                     s'\<lparr>results :=
                         AList.update tid
                           (r\<lparr>feedback := Some fb, status := ''completed_with_feedback''\<rparr>)
                           (results s')\<rparr>))))"

datatype assistant_status_reply =
    Active (as_status: string) (capabilities: "string list") (current_load: nat)
  | AssistantNotFound (anf_status: string) (anf_error: string)

fun current_load_of :: "string \<Rightarrow> task list \<Rightarrow> exn + nat" where
  "current_load_of assistant_name [] = Inr 0"
| "current_load_of assistant_name (t # rest) =
     (case assigned_assistants t of
        None \<Rightarrow> Inl (KeyError ''assigned_assistants'')
      | Some names \<Rightarrow>
          (case current_load_of assistant_name rest of
             Inl e \<Rightarrow> Inl e
           | Inr n \<Rightarrow> Inr (if assistant_name \<in> set names then Suc n else n)))"

definition get_assistant_status ::
  "'w orchestrator \<Rightarrow> string \<Rightarrow> (assistant_status_reply, 'w) outcome" where
  "get_assistant_status s assistant_name =
     (case map_of (assistants s) assistant_name of
        None \<Rightarrow>
          (Inr (AssistantNotFound ''not_found'' (''Assistant '' @ assistant_name @ '' not found'')), s)
      | Some a \<Rightarrow>
          (case map_of ASSISTANTS assistant_name of
             None \<Rightarrow> (Inl (KeyError assistant_name), s)
           | Some caps \<Rightarrow>
               (case current_load_of assistant_name (map (task_objects s) (task_queue s)) of
                  Inl e \<Rightarrow> (Inl e, s)
                | Inr n \<Rightarrow> (Inr (Active ''active'' caps n), s))))"

record system_status =
  active_assistants :: nat
  pending_tasks :: nat
  completed_tasks :: nat
  assistant_status :: "(string \<times> assistant_status_reply) list"

text \<open>The filter of \<^verbatim>\<open>completed_tasks\<close>: \<^verbatim>\<open>result['status'] in ['success', 'completed_with_feedback']\<close>\<close>

definition is_completed :: "task_result \<Rightarrow> bool" where
  "is_completed result \<longleftrightarrow> status result \<in> set [''success'', ''completed_with_feedback'']"

definition count_completed :: "(string \<times> task_result) list \<Rightarrow> nat" where
  "count_completed rs = length (filter (\<lambda>(tid, result). is_completed result) rs)"

fun all_assistant_status ::
  "'w orchestrator \<Rightarrow> string list \<Rightarrow> exn + (string \<times> assistant_status_reply) list" where
  "all_assistant_status s [] = Inr []"
| "all_assistant_status s (name # rest) =
     (case get_assistant_status s name of
        (Inl e, _) \<Rightarrow> Inl e
      | (Inr reply, _) \<Rightarrow>
          (case all_assistant_status s rest of
             Inl e \<Rightarrow> Inl e
           | Inr replies \<Rightarrow> Inr ((name, reply) # replies)))"

definition get_system_status :: "'w orchestrator \<Rightarrow> (system_status, 'w) outcome" where
  "get_system_status s =
     (case all_assistant_status s (map fst (assistants s)) of
        Inl e \<Rightarrow> (Inl e, s)
      | Inr replies \<Rightarrow>
          (Inr \<lparr>active_assistants = length (assistants s),
                pending_tasks = length (task_queue s),
                completed_tasks = count_completed (results s),
                assistant_status = replies\<rparr>,
           s))"

section \<open>Example objects\<close>

text \<open>
  An assistant that always succeeds, one whose two methods always raise, a task dictionary
  that holds only its \<^verbatim>\<open>type\<close>, and a store whose first dictionaries are given.
\<close>

definition ok_assistant :: "unit assistant" where
  "ok_assistant =
     \<lparr>wstate = (),
      assistant_process_task = (\<lambda>w t. Inr [(''status'', PStr ''success'')]),
      assistant_handle_feedback = (\<lambda>w p. Inr w)\<rparr>"

definition failing_assistant :: "unit assistant" where
  "failing_assistant =
     \<lparr>wstate = (),
      assistant_process_task = (\<lambda>w t. Inl (WorkerError ''boom'')),
      assistant_handle_feedback = (\<lambda>w p. Inl (WorkerError ''no feedback''))\<rparr>"

definition typed_task :: "pyval option \<Rightarrow> task" where
  "typed_task ty =
     \<lparr>task_type = ty, task_fields = [], task_id = None, task_status = None,
      task_timestamp = None, assigned_assistants = None\<rparr>"

definition example_task :: "string \<Rightarrow> task" where
  "example_task ty = typed_task (Some (PStr ty))"

definition store_of :: "task list \<Rightarrow> ref \<Rightarrow> task" where
  "store_of ts a = (if a < length ts then ts ! a else typed_task None)"

section \<open>What a turn of the loop leaves in a record\<close>

text \<open>
  The entry that the loop stores for one assistant of a task: the dictionary the assistant
  returned, or the error entry of the exception it raised (also when the registry has no
  assistant of that name).
\<close>

definition assistant_entry :: "'w orchestrator \<Rightarrow> task \<Rightarrow> string \<Rightarrow> pydict" where
  "assistant_entry s t assistant_name =
     (case process_task_with_assistant s t assistant_name of
        Inl e \<Rightarrow> error_entry e
      | Inr result \<Rightarrow> result)"

text \<open>
  A task record after the results of the assistants \<open>names\<close> have been stored in it, and
  after \<^verbatim>\<open>_combine_results\<close> has then written status and final result.
\<close>

definition collected :: "'w orchestrator \<Rightarrow> task \<Rightarrow> string list \<Rightarrow> task_result \<Rightarrow> task_result" where
  "collected s t names r =
     r\<lparr>assistant_results :=
         fold (\<lambda>n. AList.update n (assistant_entry s t n)) names (assistant_results r)\<rparr>"

definition finalized :: "real \<Rightarrow> task_result \<Rightarrow> task_result" where
  "finalized now r =
     r\<lparr>status := cr_status (build_combined_result now (assistant_results r)),
       final_result := Some (build_combined_result now (assistant_results r))\<rparr>"

text \<open>
  Every queued dictionary carries an id of the results store and a list of assistants, as
  every dictionary that \<^verbatim>\<open>submit_task\<close> appends does; and two queued dictionaries with the
  same id are the same object.
\<close>

definition queue_ready :: "'w orchestrator \<Rightarrow> bool" where
  "queue_ready s =
     list_all (\<lambda>a. (case task_id (task_objects s a) of
                       None \<Rightarrow> False
                     | Some tid \<Rightarrow> map_of (results s) tid \<noteq> None)
                    \<and> assigned_assistants (task_objects s a) \<noteq> None)
       (task_queue s)"

definition same_id_same_object :: "'w orchestrator \<Rightarrow> bool" where
  "same_id_same_object s =
     list_all (\<lambda>a. list_all (\<lambda>b. task_id (task_objects s a) = task_id (task_objects s b)
                                  \<longrightarrow> a = b)
                        (task_queue s))
       (task_queue s)"

text \<open>
  An orchestrator whose Moon assistant raises, holding one submitted
  \<open>full_pipeline\<close> task, and three results stores for that task: every assistant
  succeeded, one of two failed, the only one failed.
\<close>

definition mixed_orchestrator :: "unit orchestrator" where
  "mixed_orchestrator =
     snd (submit_task
            (init ok_assistant failing_assistant ok_assistant
               (store_of [example_task ''full_pipeline'']))
            100 (201 / 2) 0)"

definition all_success_results :: "(string \<times> task_result) list" where
  "all_success_results =
     [(''task_100_0'',
       \<lparr>status = ''pending'',
        assistant_results = [(''Earth'', [(''status'', PStr ''success''), (''generated_code'', PStr ''x = 1'')]),
                             (''Moon'', [(''status'', PStr ''success''), (''errors'', PList [])])],
        final_result = None, feedback = None\<rparr>)]"

definition mixed_results :: "(string \<times> task_result) list" where
  "mixed_results =
     [(''task_100_0'',
       \<lparr>status = ''pending'',
        assistant_results = [(''Earth'', [(''status'', PStr ''success'')]),
                             (''Moon'', [(''status'', PStr ''error''), (''error'', PStr ''boom'')])],
        final_result = None, feedback = None\<rparr>)]"

definition all_error_results :: "(string \<times> task_result) list" where
  "all_error_results =
     [(''task_100_0'',
       \<lparr>status = ''pending'',
        assistant_results = [(''Earth'', [(''status'', PStr ''error''), (''error'', PStr ''boom'')])],
        final_result = None, feedback = None\<rparr>)]"

section \<open>Delivery of feedback\<close>

text \<open>
  An assistant after its \<^verbatim>\<open>handle_feedback\<close> has returned from a payload, and the
  condition that the \<^verbatim>\<open>handle_feedback\<close> of every registered assistant named in the
  feedback returns from its payload rather than raising.
\<close>

definition delivered :: "'w assistant \<Rightarrow> pyval \<Rightarrow> 'w assistant" where
  "delivered a p =
     (case assistant_handle_feedback a (wstate a) p of
        Inl e \<Rightarrow> a
      | Inr w' \<Rightarrow> a\<lparr>wstate := w'\<rparr>)"

definition handlers_return :: "'w orchestrator \<Rightarrow> (string \<times> pyval) list \<Rightarrow> bool" where
  "handlers_return s items =
     list_all (\<lambda>(n, p). case map_of (assistants s) n of
                            None \<Rightarrow> True
                          | Some a \<Rightarrow> (case assistant_handle_feedback a (wstate a) p of
                                         Inl e \<Rightarrow> False
                                       | Inr w' \<Rightarrow> True))
       items"

text \<open>
  An assistant that counts the feedback it has received and one that raises on a feedback
  that is not a dictionary, as \<^verbatim>\<open>feedback.get\<close> does; an orchestrator of two counting
  assistants around a raising Moon, with one submitted task; a feedback naming a
  registered and an unregistered assistant, and one naming Moon with a payload that is not
  a dictionary, and Earth.
\<close>

definition counting_assistant :: "nat assistant" where
  "counting_assistant =
     \<lparr>wstate = 0,
      assistant_process_task = (\<lambda>w t. Inr [(''status'', PStr ''success'')]),
      assistant_handle_feedback = (\<lambda>w p. Inr (Suc w))\<rparr>"

definition strict_assistant :: "nat assistant" where
  "strict_assistant =
     \<lparr>wstate = 0,
      assistant_process_task = (\<lambda>w t. Inr [(''status'', PStr ''success'')]),
      assistant_handle_feedback =
        (\<lambda>w p. case p of
                  PDict d \<Rightarrow> Inr (Suc w)
                | _ \<Rightarrow> Inl (WorkerError ''object has no attribute get''))\<rparr>"

definition counting_orchestrator :: "nat orchestrator" where
  "counting_orchestrator =
     snd (submit_task
            (init counting_assistant strict_assistant counting_assistant
               (store_of [example_task ''code_generation'']))
            100 100 0)"

definition example_feedback :: "string \<Rightarrow> feedback" where
  "example_feedback note =
     \<lparr>assistant_feedback =
        Some [(''Pluto'', PNone), (''Earth'', PDict [(''is_successful'', PBool True)])],
      feedback_fields = [(''note'', PStr note)]\<rparr>"

definition refused_feedback :: feedback where
  "refused_feedback =
     \<lparr>assistant_feedback =
        Some [(''Moon'', PStr ''well done''), (''Earth'', PDict [(''is_successful'', PBool True)])],
      feedback_fields = []\<rparr>"

text \<open>
  A feedback that names no assistant, and the orchestrator with the failing Moon after
  this feedback has been given on its task, which is still queued.
\<close>

definition plain_feedback :: feedback where
  "plain_feedback = \<lparr>assistant_feedback = None, feedback_fields = [(''rating'', PInt 5)]\<rparr>"

definition mixed_with_feedback :: "unit orchestrator" where
  "mixed_with_feedback = snd (handle_feedback mixed_orchestrator ''task_100_0'' plain_feedback)"

section \<open>Conditions of the status queries\<close>

text \<open>
  \<^verbatim>\<open>get_system_status\<close> reads the configuration of every registered assistant and the
  assignment of every queued task: both are there on every orchestrator built by
  \<^verbatim>\<open>__init__\<close> and filled by \<^verbatim>\<open>submit_task\<close>.
\<close>

definition status_ready :: "'w orchestrator \<Rightarrow> bool" where
  "status_ready s \<longleftrightarrow>
     list_all (\<lambda>n. map_of ASSISTANTS n \<noteq> None) (map fst (assistants s))
     \<and> list_all (\<lambda>a. assigned_assistants (task_objects s a) \<noteq> None) (task_queue s)"

section \<open>A submission after the queue has been drained\<close>

text \<open>
  A task is submitted at clock reading 100 and processed; a second task is submitted half a
  second later, when the queue is empty again.
\<close>

definition first_submission :: "(string, unit) outcome" where
  "first_submission =
     submit_task
       (init ok_assistant ok_assistant ok_assistant
          (store_of [example_task ''code_generation'', example_task ''syntax_check'']))
       100 100 0"

definition after_processing :: "(unit, unit) outcome" where
  "after_processing = process_tasks (snd first_submission) (\<lambda>i. 100)"

definition second_submission :: "(string, unit) outcome" where
  "second_submission = submit_task (snd after_processing) (201 / 2) (201 / 2) 1"

section \<open>A submission whose type is a list\<close>

text \<open>
  The task \<^verbatim>\<open>{'type': ['code_generation']}\<close>, as \<^verbatim>\<open>json.load\<close> gives it, submitted to a
  fresh orchestrator.
\<close>

definition list_typed_task :: task where
  "list_typed_task = typed_task (Some (PList [PStr ''code_generation'']))"

definition list_typed_submission :: "(string, unit) outcome" where
  "list_typed_submission =
     submit_task (init ok_assistant ok_assistant ok_assistant (store_of [list_typed_task])) 100 100 0"

section \<open>Reading a formatted number back\<close>

text \<open>The value of a string of decimal digits, the inverse of \<open>str_nat\<close>.\<close>

definition digit_val :: "char \<Rightarrow> nat" where
  "digit_val c = (case find (\<lambda>d. digit_char d = c) [0..<10] of None \<Rightarrow> 0 | Some d \<Rightarrow> d)"

definition digits_value :: "string \<Rightarrow> nat" where
  "digits_value cs = foldl (\<lambda>acc c. 10 * acc + digit_val c) 0 cs"

section \<open>Invariants of the orchestrator\<close>

text \<open>
  The statuses that the orchestrator writes into a task record; the tasks whose type can
  be looked up in the routing table; the shape of the ids of the queued dictionaries (each
  got its id when the queue had the length of a position at which it now stands); and the
  orchestrators that \<^verbatim>\<open>__init__\<close>, \<^verbatim>\<open>submit_task\<close>, \<^verbatim>\<open>process_tasks\<close> and
  \<^verbatim>\<open>handle_feedback\<close> can build.
\<close>

definition known_status :: "string \<Rightarrow> bool" where
  "known_status st \<longleftrightarrow>
     st \<in> set [''pending'', ''success'', ''partial_success'', ''completed_with_feedback'']"

definition statuses_ok :: "'w orchestrator \<Rightarrow> bool" where
  "statuses_ok s \<longleftrightarrow> (\<forall>tid r. map_of (results s) tid = Some r \<longrightarrow> known_status (status r))"

definition type_hashable :: "task \<Rightarrow> bool" where
  "type_hashable t = (case task_type t of None \<Rightarrow> True | Some v \<Rightarrow> hashable v)"

definition queue_indexed :: "'w orchestrator \<Rightarrow> bool" where
  "queue_indexed s \<longleftrightarrow>
     (\<forall>i < length (task_queue s). \<exists>now j. j < length (task_queue s)
         \<and> task_queue s ! j = task_queue s ! i
         \<and> task_id (task_objects s (task_queue s ! i)) = Some (new_task_id now j))"

definition well_formed :: "'w orchestrator \<Rightarrow> bool" where
  "well_formed s \<longleftrightarrow>
     assistants s \<noteq> [] \<and> status_ready s \<and> queue_ready s
     \<and> distinct (map fst (results s)) \<and> queue_indexed s \<and> statuses_ok s
     \<and> (\<forall>a \<in> set (task_queue s). type_hashable (task_objects s a))"

inductive reachable :: "'w orchestrator \<Rightarrow> bool" where
  reachable_init: "reachable (init earth moon sun objects)"
| reachable_submit: "reachable s \<Longrightarrow> reachable (snd (submit_task s now_id now_ts a))"
| reachable_process: "reachable s \<Longrightarrow> reachable (snd (process_tasks s clock))"
| reachable_feedback: "reachable s \<Longrightarrow> reachable (snd (handle_feedback s tid fb))"

section \<open>The example orchestrators, evaluated\<close>

lemma init_eq:
  "init earth moon sun objects =
     \<lparr>assistants = [(''Earth'', earth), (''Moon'', moon), (''Sun'', sun)],
      task_queue = [], results = [], task_objects = objects\<rparr>"
  by (simp add: init_def ASSISTANTS_def)

lemma store_of_0: "store_of (t # ts) 0 = t"
  by (simp add: store_of_def)

lemma store_of_1: "store_of (t # u # ts) (Suc 0) = u"
  by (simp add: store_of_def)

lemma determine_required_assistants_example:
  "determine_required_assistants
     (t\<lparr>task_type := Some (PStr ''full_pipeline'')\<rparr>) = Inr [''Earth'', ''Moon'', ''Sun'']"
  "determine_required_assistants
     (t\<lparr>task_type := Some (PStr ''code_generation'')\<rparr>) = Inr [''Earth'']"
  "determine_required_assistants
     (t\<lparr>task_type := Some (PStr ''syntax_check'')\<rparr>) = Inr [''Moon'']"
  by (simp_all add: determine_required_assistants_def)

lemma mixed_orchestrator_eq:
  "mixed_orchestrator =
    \<lparr>assistants = [(''Earth'', ok_assistant), (''Moon'', failing_assistant), (''Sun'', ok_assistant)],
     task_queue = [0],
     results = [(''task_100_0'', pending_result)],
     task_objects =
       (store_of [example_task ''full_pipeline''])
         (0 := \<lparr>task_type = Some (PStr ''full_pipeline''), task_fields = [],
                 task_id = Some ''task_100_0'', task_status = Some ''pending'',
                 task_timestamp = Some (201 / 2),
                 assigned_assistants = Some [''Earth'', ''Moon'', ''Sun'']\<rparr>)\<rparr>"
  by (simp add: mixed_orchestrator_def submit_task_def Let_def init_eq store_of_0
        new_task_id_def str_int_def py_int_def str_nat.simps digit_char_def example_task_def
        typed_task_def determine_required_assistants_def)

lemma counting_orchestrator_eq:
  "counting_orchestrator =
    \<lparr>assistants = [(''Earth'', counting_assistant), (''Moon'', strict_assistant),
                   (''Sun'', counting_assistant)],
     task_queue = [0],
     results = [(''task_100_0'', pending_result)],
     task_objects =
       (store_of [example_task ''code_generation''])
         (0 := \<lparr>task_type = Some (PStr ''code_generation''), task_fields = [],
                 task_id = Some ''task_100_0'', task_status = Some ''pending'',
                 task_timestamp = Some 100,
                 assigned_assistants = Some [''Earth'']\<rparr>)\<rparr>"
  by (simp add: counting_orchestrator_def submit_task_def Let_def init_eq store_of_0
        new_task_id_def str_int_def py_int_def str_nat.simps digit_char_def example_task_def
        typed_task_def determine_required_assistants_def)

section \<open>Routing\<close>

lemma init_assistants:
  "assistants (init earth moon sun objects) = [(''Earth'', earth), (''Moon'', moon), (''Sun'', sun)]"
  by (simp add: init_eq)

text \<open>
  The routing by cases of the value under \<^verbatim>\<open>type\<close>: a list or a dictionary raises, the
  four strings of the table give their lists, every other value and a missing key give
  \<open>[''Earth'']\<close>.
\<close>

lemma determine_required_assistants_cases:
  "determine_required_assistants t =
     (case task_type t of
        None \<Rightarrow> Inr [''Earth'']
      | Some (PList xs) \<Rightarrow> Inl (unhashable_type (PList xs))
      | Some (PDict d) \<Rightarrow> Inl (unhashable_type (PDict d))
      | Some (PStr ty) \<Rightarrow>
          Inr (if ty = ''code_generation'' then [''Earth'']
               else if ty = ''syntax_check'' then [''Moon'']
               else if ty = ''performance_optimization'' then [''Sun'']
               else if ty = ''full_pipeline'' then [''Earth'', ''Moon'', ''Sun'']
               else [''Earth''])
      | Some v \<Rightarrow> Inr [''Earth''])"
proof (cases "task_type t")
  case None
  then show ?thesis by (simp add: determine_required_assistants_def)
next
  case (Some v)
  then show ?thesis
    by (cases v) (simp_all add: determine_required_assistants_def)
qed

lemma determine_required_assistants_hashable:
  "type_hashable t \<longleftrightarrow> (\<exists>names. determine_required_assistants t = Inr names \<and> names \<noteq> [])"
proof (cases "task_type t")
  case None
  then show ?thesis
    by (simp add: determine_required_assistants_cases type_hashable_def)
next
  case (Some v)
  then show ?thesis
    by (cases v) (simp_all add: determine_required_assistants_cases type_hashable_def)
qed

lemma determine_required_assistants_type_only:
  "task_type t = task_type t' \<Longrightarrow>
   determine_required_assistants t = determine_required_assistants t'"
  by (simp add: determine_required_assistants_def)

lemma list_typed_submission_eq:
  "list_typed_submission =
     (Inl (TypeError (''unhashable type: '' @ [CHR 0x27] @ ''list'' @ [CHR 0x27])),
      \<lparr>assistants = [(''Earth'', ok_assistant), (''Moon'', ok_assistant), (''Sun'', ok_assistant)],
       task_queue = [], results = [],
       task_objects =
         (store_of [list_typed_task])
           (0 := \<lparr>task_type = Some (PList [PStr ''code_generation'']), task_fields = [],
                   task_id = Some ''task_100_0'', task_status = Some ''pending'',
                   task_timestamp = Some 100, assigned_assistants = None\<rparr>)\<rparr>)"
  by (simp add: list_typed_submission_def submit_task_def Let_def init_eq store_of_0
        new_task_id_def str_int_def py_int_def str_nat.simps digit_char_def list_typed_task_def
        typed_task_def determine_required_assistants_def unhashable_type_def)

text \<open>
  Claim C4 fails on the code: for the task whose \<^verbatim>\<open>type\<close> is the list
  \<^verbatim>\<open>['code_generation']\<close> the lookup in the table raises \<^verbatim>\<open>TypeError\<close> instead of giving
  the default \<open>[''Earth'']\<close>, \<^verbatim>\<open>submit_task\<close> raises with it, and nothing is queued or
  stored for the submission.
\<close>

theorem determine_required_assistants_list_type:
  "task_type list_typed_task = Some (PList [PStr ''code_generation''])
   \<and> determine_required_assistants list_typed_task
       = Inl (TypeError (''unhashable type: '' @ [CHR 0x27] @ ''list'' @ [CHR 0x27]))
   \<and> determine_required_assistants list_typed_task \<noteq> Inr [''Earth'']
   \<and> fst list_typed_submission
       = Inl (TypeError (''unhashable type: '' @ [CHR 0x27] @ ''list'' @ [CHR 0x27]))
   \<and> task_queue (snd list_typed_submission) = []
   \<and> results (snd list_typed_submission) = []"
  by (simp add: list_typed_submission_eq)
     (simp add: list_typed_task_def typed_task_def determine_required_assistants_def
        unhashable_type_def)

section \<open>Submission\<close>

lemma submit_task_returns:
  assumes "determine_required_assistants (task_objects s a) = Inr names"
  shows "submit_task s now_id now_ts a =
     (Inr (new_task_id now_id (length (task_queue s))),
      s\<lparr>task_objects :=
          (task_objects s)
            (a := (task_objects s a)
                    \<lparr>task_id := Some (new_task_id now_id (length (task_queue s))),
                     task_status := Some ''pending'', task_timestamp := Some now_ts,
                     assigned_assistants := Some names\<rparr>),
        task_queue := task_queue s @ [a],
        results := AList.update (new_task_id now_id (length (task_queue s))) pending_result
                     (results s)\<rparr>)"
proof -
  let ?t1 = "(task_objects s a)\<lparr>task_id := Some (new_task_id now_id (length (task_queue s))),
                                  task_status := Some ''pending'', task_timestamp := Some now_ts\<rparr>"
  have "determine_required_assistants ?t1 = determine_required_assistants (task_objects s a)"
    by (rule determine_required_assistants_type_only) simp
  with assms have "determine_required_assistants ?t1 = Inr names" by simp
  then show ?thesis by (simp add: submit_task_def Let_def)
qed

lemma submit_task_raises:
  assumes "determine_required_assistants (task_objects s a) = Inl e"
  shows "submit_task s now_id now_ts a =
     (Inl e,
      s\<lparr>task_objects :=
          (task_objects s)
            (a := (task_objects s a)
                    \<lparr>task_id := Some (new_task_id now_id (length (task_queue s))),
                     task_status := Some ''pending'', task_timestamp := Some now_ts\<rparr>)\<rparr>)"
proof -
  let ?t1 = "(task_objects s a)\<lparr>task_id := Some (new_task_id now_id (length (task_queue s))),
                                  task_status := Some ''pending'', task_timestamp := Some now_ts\<rparr>"
  have "determine_required_assistants ?t1 = determine_required_assistants (task_objects s a)"
    by (rule determine_required_assistants_type_only) simp
  with assms have "determine_required_assistants ?t1 = Inl e" by simp
  then show ?thesis by (simp add: submit_task_def Let_def)
qed

text \<open>
  Claim C8. \<^verbatim>\<open>submit_task\<close> returns an id for every task whose \<^verbatim>\<open>type\<close> can be looked up
  in the routing table (a missing key, or any value that is not a list or a dictionary).
  Whenever it returns an id, right after the call the results store holds under that id a
  record with status \<open>pending\<close>, no assistant result, no final result and no feedback
  (also as \<^verbatim>\<open>get_task_status\<close> reads it), and the submitted dictionary, carrying the id and
  the status \<open>pending\<close>, is the last element of the queue.
\<close>

theorem submit_task_pending:
  "(type_hashable (task_objects s a) \<longrightarrow> (\<exists>tid. fst (submit_task s now_id now_ts a) = Inr tid))
   \<and> (\<forall>tid. fst (submit_task s now_id now_ts a) = Inr tid \<longrightarrow>
         tid = new_task_id now_id (length (task_queue s))
       \<and> map_of (results (snd (submit_task s now_id now_ts a))) tid =
           Some \<lparr>status = ''pending'', assistant_results = [], final_result = None,
                 feedback = None\<rparr>
       \<and> fst (get_task_status (snd (submit_task s now_id now_ts a)) tid) =
           Inr (TaskRecord \<lparr>status = ''pending'', assistant_results = [], final_result = None,
                            feedback = None\<rparr>)
       \<and> task_queue (snd (submit_task s now_id now_ts a)) = task_queue s @ [a]
       \<and> task_id (task_objects (snd (submit_task s now_id now_ts a)) a) = Some tid
       \<and> task_status (task_objects (snd (submit_task s now_id now_ts a)) a) = Some ''pending''
       \<and> task_type (task_objects (snd (submit_task s now_id now_ts a)) a)
           = task_type (task_objects s a)
       \<and> task_fields (task_objects (snd (submit_task s now_id now_ts a)) a)
           = task_fields (task_objects s a)
       \<and> assistants (snd (submit_task s now_id now_ts a)) = assistants s)"
proof (cases "determine_required_assistants (task_objects s a)")
  case (Inl e)
  then have "\<not> type_hashable (task_objects s a)"
    by (simp add: determine_required_assistants_hashable)
  moreover have "fst (submit_task s now_id now_ts a) = Inl e"
    using Inl by (simp add: submit_task_raises)
  ultimately show ?thesis by simp
next
  case (Inr names)
  show ?thesis
    by (simp add: submit_task_returns [OF Inr] update_conv' pending_result_def
          get_task_status_def)
qed

theorem submit_task_pending_witness:
  "type_hashable (task_objects
      (init ok_assistant failing_assistant ok_assistant (store_of [example_task ''full_pipeline''])) 0)
   \<and> fst (submit_task
        (init ok_assistant failing_assistant ok_assistant (store_of [example_task ''full_pipeline'']))
        100 (201 / 2) 0) = Inr ''task_100_0''
   \<and> map_of (results mixed_orchestrator) ''task_100_0'' = Some pending_result
   \<and> task_queue mixed_orchestrator = [0]
   \<and> task_id (task_objects mixed_orchestrator 0) = Some ''task_100_0''"
proof -
  let ?s = "init ok_assistant failing_assistant ok_assistant (store_of [example_task ''full_pipeline''])"
  note th = submit_task_pending [of ?s 0 100 "201 / 2"]
  have h: "type_hashable (task_objects ?s 0)"
    by (simp add: init_eq store_of_0 example_task_def typed_task_def type_hashable_def)
  have r: "fst (submit_task ?s 100 (201 / 2) 0) = Inr ''task_100_0''"
    using th h
    by (auto simp: new_task_id_def str_int_def py_int_def str_nat.simps digit_char_def init_eq)
  have rest: "map_of (results mixed_orchestrator) ''task_100_0'' = Some pending_result"
    "task_queue mixed_orchestrator = [0]"
    "task_id (task_objects mixed_orchestrator 0) = Some ''task_100_0''"
    by (simp_all add: mixed_orchestrator_eq)
  from h r rest show ?thesis by (intro conjI)
qed

section \<open>Status queries\<close>

text \<open>
  Claim C7. \<^verbatim>\<open>get_task_status\<close> raises for no id and leaves the orchestrator as it was:
  for an id of the results store the reply is the record stored there, for any other id it
  is the not-found dictionary, whose status is \<open>not_found\<close> and whose error names the
  id. Asking again gives the same reply.
\<close>

theorem get_task_status_total:
  "\<exists>reply. get_task_status s tid = (Inr reply, s)
     \<and> (\<forall>r. map_of (results s) tid = Some r \<longrightarrow> reply = TaskRecord r)
     \<and> (map_of (results s) tid = None \<longrightarrow>
          reply = NotFound ''not_found'' (''Task '' @ tid @ '' not found'')
          \<and> nf_status reply = ''not_found'')
     \<and> get_task_status (snd (get_task_status s tid)) tid = get_task_status s tid"
  by (cases "map_of (results s) tid") (simp_all add: get_task_status_def)

theorem get_task_status_total_witness:
  "map_of (results mixed_orchestrator) ''task_100_0'' = Some pending_result
   \<and> get_task_status mixed_orchestrator ''task_100_0''
       = (Inr (TaskRecord pending_result), mixed_orchestrator)
   \<and> map_of (results mixed_orchestrator) ''task_7_7'' = None
   \<and> get_task_status mixed_orchestrator ''task_7_7''
       = (Inr (NotFound ''not_found'' ''Task task_7_7 not found''), mixed_orchestrator)"
  using get_task_status_total [of mixed_orchestrator "''task_100_0''"]
        get_task_status_total [of mixed_orchestrator "''task_7_7''"]
  by (simp add: mixed_orchestrator_eq get_task_status_def)

section \<open>Processing a task\<close>

lemma assistant_entry_cong:
  "assistants s' = assistants s \<Longrightarrow> assistant_entry s' t n = assistant_entry s t n"
  by (simp add: assistant_entry_def process_task_with_assistant_def)

lemma collected_cong:
  "assistants s' = assistants s \<Longrightarrow> collected s' t names r = collected s t names r"
  by (simp add: collected_def assistant_entry_def process_task_with_assistant_def)

lemma store_result_Some:
  "map_of (results s) tid = Some r \<Longrightarrow>
   store_result s tid n e =
     (Inr (), s\<lparr>results := AList.update tid
                  (r\<lparr>assistant_results := AList.update n e (assistant_results r)\<rparr>) (results s)\<rparr>)"
  by (simp add: store_result_def)

lemma collect_result_Some:
  "map_of (results s) tid = Some r \<Longrightarrow>
   collect_result s t tid n =
     (Inr (), s\<lparr>results := AList.update tid
                  (r\<lparr>assistant_results := AList.update n (assistant_entry s t n) (assistant_results r)\<rparr>)
                  (results s)\<rparr>)"
  by (cases "process_task_with_assistant s t n")
     (simp_all add: collect_result_def assistant_entry_def store_result_Some)

lemma collect_results_Some:
  "map_of (results s) tid = Some r \<Longrightarrow>
   collect_results s t tid names =
     (Inr (), s\<lparr>results := AList.update tid (collected s t names r) (results s)\<rparr>)"
proof (induction names arbitrary: s r)
  case Nil
  then show ?case by (simp add: collected_def update_triv)
next
  case (Cons n names)
  let ?r1 = "r\<lparr>assistant_results := AList.update n (assistant_entry s t n) (assistant_results r)\<rparr>"
  let ?s1 = "s\<lparr>results := AList.update tid ?r1 (results s)\<rparr>"
  have step: "collect_result s t tid n = (Inr (), ?s1)"
    using Cons.prems by (rule collect_result_Some)
  have look: "map_of (results ?s1) tid = Some ?r1"
    by (simp add: update_conv')
  have same: "assistants ?s1 = assistants s" by simp
  have "collect_results ?s1 t tid names =
          (Inr (), ?s1\<lparr>results := AList.update tid (collected ?s1 t names ?r1) (results ?s1)\<rparr>)"
    using look by (rule Cons.IH)
  moreover have "collected ?s1 t names ?r1 = collected s t (n # names) r"
    by (simp add: collected_def assistant_entry_cong [OF same])
  ultimately show ?case
    using step by simp
qed

lemma combine_results_Some:
  "map_of (results s) tid = Some r \<Longrightarrow>
   combine_results s now tid =
     (Inr (), s\<lparr>results := AList.update tid (finalized now r) (results s)\<rparr>)"
  by (simp add: combine_results_def finalized_def Let_def)

lemma process_one_Some:
  assumes "task_id (task_objects s a) = Some tid"
    and "assigned_assistants (task_objects s a) = Some names"
    and "map_of (results s) tid = Some r"
  shows "process_one s now a =
     (Inr (), s\<lparr>results := AList.update tid
                  (finalized now (collected s (task_objects s a) names r)) (results s)\<rparr>)"
proof -
  let ?t = "task_objects s a"
  let ?s1 = "s\<lparr>results := AList.update tid (collected s ?t names r) (results s)\<rparr>"
  have c: "collect_results s ?t tid names = (Inr (), ?s1)"
    using assms(3) by (rule collect_results_Some)
  have "map_of (results ?s1) tid = Some (collected s ?t names r)"
    by (simp add: update_conv')
  then have "combine_results ?s1 now tid =
      (Inr (), ?s1\<lparr>results := AList.update tid (finalized now (collected s ?t names r)) (results ?s1)\<rparr>)"
    by (rule combine_results_Some)
  then show ?thesis
    using assms(1,2) c by (simp add: process_one_def Let_def)
qed

lemma fold_update_other:
  "n \<notin> set names \<Longrightarrow> map_of (fold (\<lambda>n. AList.update n (f n)) names ar) n = map_of ar n"
  by (induction names arbitrary: ar) (auto simp: update_conv')

lemma fold_update_member:
  "n \<in> set names \<Longrightarrow> map_of (fold (\<lambda>n. AList.update n (f n)) names ar) n = Some (f n)"
proof (induction names arbitrary: ar)
  case Nil
  then show ?case by simp
next
  case (Cons m names)
  show ?case
  proof (cases "n \<in> set names")
    case True
    then show ?thesis using Cons.IH by simp
  next
    case False
    with Cons.prems have "m = n" by simp
    with False show ?thesis by (simp add: fold_update_other update_conv')
  qed
qed

lemma collected_entry:
  "n \<in> set names \<Longrightarrow> map_of (assistant_results (collected s t names r)) n = Some (assistant_entry s t n)"
  by (simp add: collected_def fold_update_member)

lemma all_successful_iff:
  "all_successful ar \<longleftrightarrow> (\<forall>(n, result) \<in> set ar. map_of result ''status'' = Some (PStr ''success''))"
  by (auto simp: all_successful_def list_all_iff)

lemma finalized_status:
  "status (finalized now r) = (if all_successful (assistant_results r) then ''success'' else ''partial_success'')"
  by (simp add: finalized_def build_combined_result_def)

lemma finalized_assistant_results [simp]:
  "assistant_results (finalized now r) = assistant_results r"
  by (simp add: finalized_def)

lemma not_all_successful:
  assumes "map_of ar n = Some entry"
    and "map_of entry ''status'' \<noteq> Some (PStr ''success'')"
  shows "\<not> all_successful ar"
proof
  assume a: "all_successful ar"
  from assms(1) have "(n, entry) \<in> set ar" by (rule map_of_SomeD)
  then have "entry \<in> set (map snd ar)" by force
  with a have "map_of entry ''status'' = Some (PStr ''success'')"
    by (auto simp: all_successful_def list_all_iff)
  with assms(2) show False by contradiction
qed

lemma error_entry_not_success:
  "map_of (error_entry e) ''status'' \<noteq> Some (PStr ''success'')"
  by (simp add: error_entry_def)

lemma keys_update_present:
  "map_of al k = Some v \<Longrightarrow> map fst (AList.update k v' al) = map fst al"
  by (induction al) auto

lemma map_of_update_other:
  "k' \<noteq> k \<Longrightarrow> map_of (AList.update k v al) k' = map_of al k'"
  by (simp add: update_conv')

text \<open>
  The loop over a queue of dictionaries that carry ids of the results store, where two
  dictionaries with the same id are the same object.
\<close>

lemma process_loop_ok:
  assumes "\<forall>a \<in> set q. \<exists>tid names. task_id (task_objects s a) = Some tid
              \<and> assigned_assistants (task_objects s a) = Some names
              \<and> map_of (results s) tid \<noteq> None"
    and "\<forall>a \<in> set q. \<forall>b \<in> set q.
            task_id (task_objects s a) = task_id (task_objects s b) \<longrightarrow> a = b"
  shows "\<exists>s'. process_loop clock i q s = (Inr (), s')
           \<and> assistants s' = assistants s
           \<and> task_objects s' = task_objects s
           \<and> task_queue s' = (if q = [] then task_queue s else [])
           \<and> map fst (results s') = map fst (results s)
           \<and> (\<forall>k. (\<forall>a \<in> set q. task_id (task_objects s a) \<noteq> Some k) \<longrightarrow>
                  map_of (results s') k = map_of (results s) k)
           \<and> (\<forall>a \<in> set q. \<forall>tid names.
                 task_id (task_objects s a) = Some tid \<longrightarrow>
                 assigned_assistants (task_objects s a) = Some names \<longrightarrow>
                 (\<exists>j r. map_of (results s') tid =
                    Some (finalized (clock j) (collected s (task_objects s a) names r))))"
  using assms
proof (induction q arbitrary: s i)
  case Nil
  then show ?case by simp
next
  case (Cons a rest)
  define h where "h = task_objects s"
  from Cons.prems(1) obtain tid names r where
    t: "task_id (h a) = Some tid" "assigned_assistants (h a) = Some names"
       "map_of (results s) tid = Some r"
    unfolding h_def by auto
  define r1 where "r1 = finalized (clock i) (collected s (h a) names r)"
  define s1 where "s1 = s\<lparr>task_queue := rest, results := AList.update tid r1 (results s)\<rparr>"
  have s1_as: "assistants s1 = assistants s" and s1_h: "task_objects s1 = h"
    and s1_q: "task_queue s1 = rest"
    and s1_rs: "results s1 = AList.update tid r1 (results s)"
    by (simp_all add: s1_def h_def)
  have one: "process_one (s\<lparr>task_queue := rest\<rparr>) (clock i) a = (Inr (), s1)"
  proof -
    let ?s0 = "s\<lparr>task_queue := rest\<rparr>"
    have same0: "assistants ?s0 = assistants s" by simp
    have "process_one ?s0 (clock i) a =
      (Inr (), ?s0\<lparr>results := AList.update tid
          (finalized (clock i) (collected ?s0 (task_objects ?s0 a) names r)) (results ?s0)\<rparr>)"
      using t by (intro process_one_Some) (simp_all add: h_def)
    then show ?thesis
      by (simp add: collected_cong [OF same0] s1_def r1_def h_def)
  qed
  have keys1: "map fst (results s1) = map fst (results s)"
    unfolding s1_rs using t(3) by (rule keys_update_present)
  have look1: "map_of (results s1) tid = Some r1"
    unfolding s1_rs by (simp add: update_conv')
  have other1: "\<And>k. k \<noteq> tid \<Longrightarrow> map_of (results s1) k = map_of (results s) k"
    unfolding s1_rs by (simp add: update_conv')
  have ready1: "\<forall>b \<in> set rest. \<exists>tid' names'. task_id (task_objects s1 b) = Some tid'
              \<and> assigned_assistants (task_objects s1 b) = Some names'
              \<and> map_of (results s1) tid' \<noteq> None"
  proof
    fix b assume b: "b \<in> set rest"
    with Cons.prems(1) obtain tid' names' where
      b': "task_id (h b) = Some tid'" "assigned_assistants (h b) = Some names'"
          "map_of (results s) tid' \<noteq> None"
      unfolding h_def by auto
    have "map_of (results s1) tid' \<noteq> None"
    proof (cases "tid' = tid")
      case True
      with look1 show ?thesis by simp
    next
      case False
      then have "map_of (results s1) tid' = map_of (results s) tid'" by (rule other1)
      with b'(3) show ?thesis by simp
    qed
    with b'(1,2) show "\<exists>tid' names'. task_id (task_objects s1 b) = Some tid'
              \<and> assigned_assistants (task_objects s1 b) = Some names'
              \<and> map_of (results s1) tid' \<noteq> None"
      unfolding s1_h by simp
  qed
  have same1: "\<forall>b \<in> set rest. \<forall>c \<in> set rest.
            task_id (task_objects s1 b) = task_id (task_objects s1 c) \<longrightarrow> b = c"
    using Cons.prems(2) unfolding s1_h h_def by simp
  from Cons.IH [OF ready1 same1, of "Suc i"] obtain s' where
    loop: "process_loop clock (Suc i) rest s1 = (Inr (), s')"
    and as': "assistants s' = assistants s1"
    and h': "task_objects s' = task_objects s1"
    and q': "task_queue s' = (if rest = [] then task_queue s1 else [])"
    and k': "map fst (results s') = map fst (results s1)"
    and o': "\<forall>k. (\<forall>b \<in> set rest. task_id (task_objects s1 b) \<noteq> Some k) \<longrightarrow>
                map_of (results s') k = map_of (results s1) k"
    and f': "\<forall>b \<in> set rest. \<forall>tid names.
                 task_id (task_objects s1 b) = Some tid \<longrightarrow>
                 assigned_assistants (task_objects s1 b) = Some names \<longrightarrow>
                 (\<exists>j r. map_of (results s') tid =
                    Some (finalized (clock j) (collected s1 (task_objects s1 b) names r)))"
    by blast
  have run: "process_loop clock i (a # rest) s = (Inr (), s')"
    using one loop by simp
  have c1: "assistants s' = assistants s" using as' s1_as by simp
  have c1h: "task_objects s' = task_objects s" using h' s1_h by (simp add: h_def)
  have c2: "task_queue s' = (if a # rest = [] then task_queue s else [])"
    using q' s1_q by simp
  have c3: "map fst (results s') = map fst (results s)"
    using k' keys1 by simp
  have c4: "\<forall>k. (\<forall>b \<in> set (a # rest). task_id (task_objects s b) \<noteq> Some k) \<longrightarrow>
                map_of (results s') k = map_of (results s) k"
  proof (intro allI impI)
    fix k assume k: "\<forall>b \<in> set (a # rest). task_id (task_objects s b) \<noteq> Some k"
    then have "k \<noteq> tid" using t(1) by (auto simp: h_def)
    then have "map_of (results s1) k = map_of (results s) k" by (rule other1)
    moreover from k have "\<forall>b \<in> set rest. task_id (task_objects s1 b) \<noteq> Some k"
      unfolding s1_h h_def by simp
    with o' have "map_of (results s') k = map_of (results s1) k" by simp
    ultimately show "map_of (results s') k = map_of (results s) k" by simp
  qed
  have c5: "\<forall>b \<in> set (a # rest). \<forall>tid names.
                 task_id (task_objects s b) = Some tid \<longrightarrow>
                 assigned_assistants (task_objects s b) = Some names \<longrightarrow>
                 (\<exists>j r. map_of (results s') tid =
                    Some (finalized (clock j) (collected s (task_objects s b) names r)))"
  proof (intro ballI allI impI)
    fix b tid2 names2
    assume b: "b \<in> set (a # rest)"
      and b2: "task_id (task_objects s b) = Some tid2"
              "assigned_assistants (task_objects s b) = Some names2"
    show "\<exists>j r. map_of (results s') tid2 =
            Some (finalized (clock j) (collected s (task_objects s b) names2 r))"
    proof (cases "b \<in> set rest")
      case True
      from b2 have "task_id (task_objects s1 b) = Some tid2"
        "assigned_assistants (task_objects s1 b) = Some names2"
        unfolding s1_h h_def by simp_all
      with f' True obtain j r0 where
        "map_of (results s') tid2 =
           Some (finalized (clock j) (collected s1 (task_objects s1 b) names2 r0))"
        by blast
      moreover have "collected s1 (task_objects s1 b) names2 r0 = collected s (task_objects s b) names2 r0"
        unfolding s1_h h_def using s1_as by (rule collected_cong)
      ultimately show ?thesis by auto
    next
      case False
      with b have ba: "b = a" by simp
      with b2 t have eq: "tid2 = tid" "names2 = names" by (simp_all add: h_def)
      have "\<forall>c \<in> set rest. task_id (task_objects s1 c) \<noteq> Some tid"
      proof
        fix c assume c: "c \<in> set rest"
        show "task_id (task_objects s1 c) \<noteq> Some tid"
        proof
          assume "task_id (task_objects s1 c) = Some tid"
          then have "task_id (task_objects s a) = task_id (task_objects s c)"
            using t(1) unfolding s1_h h_def by simp
          with Cons.prems(2) c have "a = c" by simp
          with c False ba show False by simp
        qed
      qed
      with o' have "map_of (results s') tid = map_of (results s1) tid" by simp
      with look1 have "map_of (results s') tid = Some r1" by simp
      then show ?thesis
        unfolding eq r1_def ba h_def by blast
    qed
  qed
  from run c1 c1h c2 c3 c4 c5 show ?case by blast
qed

section \<open>Aggregation\<close>

lemma process_one_record:
  assumes "task_id (task_objects s a) = Some tid" "assigned_assistants (task_objects s a) = Some names"
    and "map_of (results s) tid = Some r"
  shows "\<exists>s2. process_one s now a = (Inr (), s2)
     \<and> map_of (results s2) tid = Some (finalized now (collected s (task_objects s a) names r))"
proof -
  let ?s2 = "s\<lparr>results := AList.update tid (finalized now (collected s (task_objects s a) names r)) (results s)\<rparr>"
  have "process_one s now a = (Inr (), ?s2)"
    using assms by (rule process_one_Some)
  moreover have "map_of (results ?s2) tid = Some (finalized now (collected s (task_objects s a) names r))"
    by (simp add: update_conv')
  ultimately show ?thesis by blast
qed

text \<open>
  Claim C1. For a task of the results store \<^verbatim>\<open>_combine_results\<close> returns without raising
  and sets the status to \<open>success\<close> exactly when every entry of the task's result map
  has status \<open>success\<close>, and to \<open>partial_success\<close> otherwise; the final result
  carries the same status and the result map as its components. The same holds after a
  whole turn of the processing loop, when every assigned assistant has an entry in the map.
\<close>

theorem combine_results_status:
  assumes "map_of (results s) tid = Some r"
  shows "\<exists>s' r' c. combine_results s now tid = (Inr (), s')
     \<and> map_of (results s') tid = Some r'
     \<and> (status r' = ''success'' \<longleftrightarrow>
          (\<forall>(n, result) \<in> set (assistant_results r). map_of result ''status'' = Some (PStr ''success'')))
     \<and> (status r' = ''success'' \<or> status r' = ''partial_success'')
     \<and> final_result r' = Some c \<and> cr_status c = status r'
     \<and> components c = assistant_results r
     \<and> assistant_results r' = assistant_results r
     \<and> (\<forall>a names. task_id (task_objects s a) = Some tid \<longrightarrow> assigned_assistants (task_objects s a) = Some names \<longrightarrow>
           (\<exists>s2 r2. process_one s now a = (Inr (), s2)
              \<and> map_of (results s2) tid = Some r2
              \<and> (\<forall>n \<in> set names. map_of (assistant_results r2) n = Some (assistant_entry s (task_objects s a) n))
              \<and> (status r2 = ''success'' \<longleftrightarrow>
                   (\<forall>(n, result) \<in> set (assistant_results r2).
                      map_of result ''status'' = Some (PStr ''success'')))
              \<and> (status r2 = ''success'' \<or> status r2 = ''partial_success'')))"
proof -
  let ?s' = "s\<lparr>results := AList.update tid (finalized now r) (results s)\<rparr>"
  have run: "combine_results s now tid = (Inr (), ?s')"
    using assms by (rule combine_results_Some)
  have look: "map_of (results ?s') tid = Some (finalized now r)"
    by (simp add: update_conv')
  have iff: "\<And>q. status (finalized now q) = ''success'' \<longleftrightarrow>
          (\<forall>(n, result) \<in> set (assistant_results (finalized now q)).
             map_of result ''status'' = Some (PStr ''success''))"
    by (simp add: finalized_status all_successful_iff)
  have two: "\<And>q. status (finalized now q) = ''success'' \<or> status (finalized now q) = ''partial_success''"
    by (simp add: finalized_status)
  have fin: "final_result (finalized now r) = Some (build_combined_result now (assistant_results r))"
    "cr_status (build_combined_result now (assistant_results r)) = status (finalized now r)"
    "components (build_combined_result now (assistant_results r)) = assistant_results r"
    by (simp_all add: finalized_def build_combined_result_def)
  have one: "\<forall>a names. task_id (task_objects s a) = Some tid \<longrightarrow> assigned_assistants (task_objects s a) = Some names \<longrightarrow>
           (\<exists>s2 r2. process_one s now a = (Inr (), s2)
              \<and> map_of (results s2) tid = Some r2
              \<and> (\<forall>n \<in> set names. map_of (assistant_results r2) n = Some (assistant_entry s (task_objects s a) n))
              \<and> (status r2 = ''success'' \<longleftrightarrow>
                   (\<forall>(n, result) \<in> set (assistant_results r2).
                      map_of result ''status'' = Some (PStr ''success'')))
              \<and> (status r2 = ''success'' \<or> status r2 = ''partial_success''))"
  proof (intro allI impI)
    fix a names
    assume t: "task_id (task_objects s a) = Some tid" "assigned_assistants (task_objects s a) = Some names"
    let ?r2 = "finalized now (collected s (task_objects s a) names r)"
    from process_one_record [OF t assms, of now] obtain s2 where
      s2: "process_one s now a = (Inr (), s2)" "map_of (results s2) tid = Some ?r2"
      by blast
    have ent: "\<forall>n \<in> set names. map_of (assistant_results ?r2) n = Some (assistant_entry s (task_objects s a) n)"
      by (simp add: collected_entry)
    from s2 ent iff [of "collected s (task_objects s a) names r"] two [of "collected s (task_objects s a) names r"]
    show "\<exists>s2 r2. process_one s now a = (Inr (), s2)
              \<and> map_of (results s2) tid = Some r2
              \<and> (\<forall>n \<in> set names. map_of (assistant_results r2) n = Some (assistant_entry s (task_objects s a) n))
              \<and> (status r2 = ''success'' \<longleftrightarrow>
                   (\<forall>(n, result) \<in> set (assistant_results r2).
                      map_of result ''status'' = Some (PStr ''success'')))
              \<and> (status r2 = ''success'' \<or> status r2 = ''partial_success'')"
      by blast
  qed
  have iff0: "status (finalized now r) = ''success'' \<longleftrightarrow>
          (\<forall>(n, result) \<in> set (assistant_results r). map_of result ''status'' = Some (PStr ''success''))"
    using iff [of r] by simp
  from run look iff0 two [of r] fin finalized_assistant_results [of now r] one
  show ?thesis by blast
qed

theorem combine_results_status_witness:
  "map_of all_success_results ''task_100_0'' \<noteq> None
   \<and> map_of (results (snd (combine_results
         (mixed_orchestrator\<lparr>results := all_success_results\<rparr>) 7 ''task_100_0''))) ''task_100_0''
       \<noteq> None
   \<and> map_option status (map_of (results (snd (combine_results
         (mixed_orchestrator\<lparr>results := all_success_results\<rparr>) 7 ''task_100_0''))) ''task_100_0'')
       = Some ''success''
   \<and> map_option status (map_of (results (snd (combine_results
         (mixed_orchestrator\<lparr>results := mixed_results\<rparr>) 7 ''task_100_0''))) ''task_100_0'')
       = Some ''partial_success''
   \<and> map_option status (map_of (results (snd (combine_results
         (mixed_orchestrator\<lparr>results := all_error_results\<rparr>) 7 ''task_100_0''))) ''task_100_0'')
       = Some ''partial_success''"
  using combine_results_status
          [of "mixed_orchestrator\<lparr>results := all_success_results\<rparr>" "''task_100_0''"
              "the (map_of all_success_results ''task_100_0'')" 7]
  by (simp add: all_success_results_def mixed_results_def all_error_results_def
        combine_results_def build_combined_result_def all_successful_def update_conv' Let_def)

section \<open>Isolation of failing assistants\<close>

lemma queue_ready_iff:
  "queue_ready s \<longleftrightarrow>
     (\<forall>a \<in> set (task_queue s). \<exists>tid names. task_id (task_objects s a) = Some tid
          \<and> assigned_assistants (task_objects s a) = Some names
          \<and> map_of (results s) tid \<noteq> None)"
  by (auto simp: queue_ready_def list_all_iff split: option.splits)

lemma same_id_same_object_iff:
  "same_id_same_object s \<longleftrightarrow>
     (\<forall>a \<in> set (task_queue s). \<forall>b \<in> set (task_queue s).
        task_id (task_objects s a) = task_id (task_objects s b) \<longrightarrow> a = b)"
  by (simp add: same_id_same_object_def list_all_iff)

lemma distinct_ids_same_object:
  assumes "distinct (map (\<lambda>a. task_id (task_objects s a)) (task_queue s))"
  shows "same_id_same_object s"
  unfolding same_id_same_object_iff
proof (intro ballI impI)
  fix a b
  assume "a \<in> set (task_queue s)" "b \<in> set (task_queue s)"
    and "task_id (task_objects s a) = task_id (task_objects s b)"
  with assms show "a = b"
    by (metis (mono_tags, lifting) distinct_map inj_onD)
qed

lemma finalized_collected_failure:
  assumes "n \<in> set names" and "process_task_with_assistant s t n = Inl e"
  shows "map_of (assistant_results (finalized now (collected s t names r))) n = Some (error_entry e)"
    and "status (finalized now (collected s t names r)) = ''partial_success''"
proof -
  have ent: "map_of (assistant_results (collected s t names r)) n = Some (error_entry e)"
    using assms by (simp add: collected_entry assistant_entry_def)
  then show "map_of (assistant_results (finalized now (collected s t names r))) n = Some (error_entry e)"
    by simp
  from ent error_entry_not_success have "\<not> all_successful (assistant_results (collected s t names r))"
    by (rule not_all_successful)
  then show "status (finalized now (collected s t names r)) = ''partial_success''"
    by (simp add: finalized_status)
qed

lemma finalized_collected_result:
  assumes "n \<in> set names" and "process_task_with_assistant s t n = Inr result"
  shows "map_of (assistant_results (finalized now (collected s t names r))) n = Some result"
  using assms by (simp add: collected_entry assistant_entry_def)

text \<open>
  Claim C2. On an orchestrator with a non-empty registry whose queued dictionaries carry
  ids of the results store, two of them with the same id being the same object,
  \<^verbatim>\<open>process_tasks\<close> raises nothing and empties the queue. For every task that was queued
  and every assistant assigned to it: if the invocation raised (or the registry has no such
  assistant), the task's result map holds for that assistant the entry with status
  \<open>error\<close> and the message of the exception, and the status of the task is
  \<open>partial_success\<close>; if it returned, the map holds the returned dictionary.
\<close>

theorem process_tasks_isolates_failures:
  assumes "assistants s \<noteq> []" and "queue_ready s" and "same_id_same_object s"
  shows "\<exists>s'. process_tasks s clock = (Inr (), s')
      \<and> task_queue s' = [] \<and> assistants s' = assistants s
      \<and> (\<forall>a \<in> set (task_queue s). \<exists>tid names r'.
            task_id (task_objects s a) = Some tid
          \<and> assigned_assistants (task_objects s a) = Some names
          \<and> map_of (results s') tid = Some r'
          \<and> (\<forall>n \<in> set names.
               (\<forall>e. process_task_with_assistant s (task_objects s a) n = Inl e \<longrightarrow>
                   map_of (assistant_results r') n =
                     Some [(''status'', PStr ''error''), (''error'', PStr (exn_str e))]
                   \<and> status r' = ''partial_success'')
             \<and> (\<forall>result. process_task_with_assistant s (task_objects s a) n = Inr result \<longrightarrow>
                   map_of (assistant_results r') n = Some result)))"
proof -
  have ready: "\<forall>a \<in> set (task_queue s). \<exists>tid names. task_id (task_objects s a) = Some tid
      \<and> assigned_assistants (task_objects s a) = Some names \<and> map_of (results s) tid \<noteq> None"
    using assms(2) by (simp add: queue_ready_iff)
  have same: "\<forall>a \<in> set (task_queue s). \<forall>b \<in> set (task_queue s).
        task_id (task_objects s a) = task_id (task_objects s b) \<longrightarrow> a = b"
    using assms(3) by (simp add: same_id_same_object_iff)
  from process_loop_ok [OF ready same, of clock 0] obtain s' where
    run: "process_loop clock 0 (task_queue s) s = (Inr (), s')"
    and as: "assistants s' = assistants s"
    and q: "task_queue s' = (if task_queue s = [] then task_queue s else [])"
    and fin: "\<forall>a \<in> set (task_queue s). \<forall>tid names.
                 task_id (task_objects s a) = Some tid \<longrightarrow>
                 assigned_assistants (task_objects s a) = Some names \<longrightarrow>
                 (\<exists>j r. map_of (results s') tid =
                    Some (finalized (clock j) (collected s (task_objects s a) names r)))"
    by blast
  have c1: "process_tasks s clock = (Inr (), s')"
    using assms(1) run by (simp add: process_tasks_def)
  have c2: "task_queue s' = []" using q by (simp split: if_splits)
  have c3: "\<forall>a \<in> set (task_queue s). \<exists>tid names r'.
            task_id (task_objects s a) = Some tid
          \<and> assigned_assistants (task_objects s a) = Some names
          \<and> map_of (results s') tid = Some r'
          \<and> (\<forall>n \<in> set names.
               (\<forall>e. process_task_with_assistant s (task_objects s a) n = Inl e \<longrightarrow>
                   map_of (assistant_results r') n =
                     Some [(''status'', PStr ''error''), (''error'', PStr (exn_str e))]
                   \<and> status r' = ''partial_success'')
             \<and> (\<forall>result. process_task_with_assistant s (task_objects s a) n = Inr result \<longrightarrow>
                   map_of (assistant_results r') n = Some result))"
  proof
    fix a assume a: "a \<in> set (task_queue s)"
    define t where "t = task_objects s a"
    from a ready obtain tid names where
      tn: "task_id t = Some tid" "assigned_assistants t = Some names"
      unfolding t_def by fastforce
    from fin a tn obtain j r where
      look: "map_of (results s') tid = Some (finalized (clock j) (collected s t names r))"
      unfolding t_def by blast
    define r' where "r' = finalized (clock j) (collected s t names r)"
    have each: "\<forall>n \<in> set names.
               (\<forall>e. process_task_with_assistant s t n = Inl e \<longrightarrow>
                   map_of (assistant_results r') n =
                     Some [(''status'', PStr ''error''), (''error'', PStr (exn_str e))]
                   \<and> status r' = ''partial_success'')
             \<and> (\<forall>result. process_task_with_assistant s t n = Inr result \<longrightarrow>
                   map_of (assistant_results r') n = Some result)"
    proof (intro ballI conjI allI impI)
      fix n e assume "n \<in> set names" "process_task_with_assistant s t n = Inl e"
      then show "map_of (assistant_results r') n =
                     Some [(''status'', PStr ''error''), (''error'', PStr (exn_str e))]"
        and "status r' = ''partial_success''"
        unfolding r'_def
        using finalized_collected_failure [of n names s t e "clock j" r]
        by (simp_all add: error_entry_def)
    next
      fix n result assume "n \<in> set names" "process_task_with_assistant s t n = Inr result"
      then show "map_of (assistant_results r') n = Some result"
        unfolding r'_def by (rule finalized_collected_result)
    qed
    from tn look each
    show "\<exists>tid names r'.
            task_id (task_objects s a) = Some tid
          \<and> assigned_assistants (task_objects s a) = Some names
          \<and> map_of (results s') tid = Some r'
          \<and> (\<forall>n \<in> set names.
               (\<forall>e. process_task_with_assistant s (task_objects s a) n = Inl e \<longrightarrow>
                   map_of (assistant_results r') n =
                     Some [(''status'', PStr ''error''), (''error'', PStr (exn_str e))]
                   \<and> status r' = ''partial_success'')
             \<and> (\<forall>result. process_task_with_assistant s (task_objects s a) n = Inr result \<longrightarrow>
                   map_of (assistant_results r') n = Some result))"
      unfolding r'_def t_def by blast
  qed
  from c1 c2 as c3 show ?thesis by blast
qed

lemma process_tasks_mixed:
  "process_tasks mixed_orchestrator (\<lambda>i. 7) =
     (Inr (),
      mixed_orchestrator
       \<lparr>task_queue := [],
        results :=
         [(''task_100_0'',
           \<lparr>status = ''partial_success'',
            assistant_results =
              [(''Earth'', [(''status'', PStr ''success'')]),
               (''Moon'', [(''status'', PStr ''error''), (''error'', PStr ''boom'')]),
               (''Sun'', [(''status'', PStr ''success'')])],
            final_result =
              Some \<lparr>cr_status = ''partial_success'', cr_timestamp = 7,
                    components =
                      [(''Earth'', [(''status'', PStr ''success'')]),
                       (''Moon'', [(''status'', PStr ''error''), (''error'', PStr ''boom'')]),
                       (''Sun'', [(''status'', PStr ''success'')])],
                    generated_code = Some PNone,
                    syntax_validation = Some PNone,
                    performance_analysis = Some PNone\<rparr>,
            feedback = None\<rparr>)]\<rparr>)"
  by (simp add: mixed_orchestrator_eq process_tasks_def process_one_def collect_result_def
        store_result_def process_task_with_assistant_def ok_assistant_def failing_assistant_def
        error_entry_def combine_results_def build_combined_result_def all_successful_def
        extract_field_def py_get_def pending_result_def Let_def)

theorem process_tasks_isolates_failures_witness:
  "assistants mixed_orchestrator \<noteq> []
   \<and> queue_ready mixed_orchestrator
   \<and> same_id_same_object mixed_orchestrator
   \<and> fst (process_tasks mixed_orchestrator (\<lambda>i. 7)) = Inr ()
   \<and> map_option status
         (map_of (results (snd (process_tasks mixed_orchestrator (\<lambda>i. 7)))) ''task_100_0'')
       = Some ''partial_success''
   \<and> map_option assistant_results
         (map_of (results (snd (process_tasks mixed_orchestrator (\<lambda>i. 7)))) ''task_100_0'')
       = Some [(''Earth'', [(''status'', PStr ''success'')]),
               (''Moon'', [(''status'', PStr ''error''), (''error'', PStr ''boom'')]),
               (''Sun'', [(''status'', PStr ''success'')])]"
proof -
  note th = process_tasks_isolates_failures [of mixed_orchestrator "\<lambda>i. 7"]
  have a: "assistants mixed_orchestrator \<noteq> []" by (simp add: mixed_orchestrator_eq)
  have b: "queue_ready mixed_orchestrator"
    by (simp add: mixed_orchestrator_eq queue_ready_def)
  have c: "same_id_same_object mixed_orchestrator"
    by (simp add: mixed_orchestrator_eq same_id_same_object_def)
  have d: "fst (process_tasks mixed_orchestrator (\<lambda>i. 7)) = Inr ()"
    using th [OF a b c] by auto
  have e: "map_option status
         (map_of (results (snd (process_tasks mixed_orchestrator (\<lambda>i. 7)))) ''task_100_0'')
       = Some ''partial_success''"
    "map_option assistant_results
         (map_of (results (snd (process_tasks mixed_orchestrator (\<lambda>i. 7)))) ''task_100_0'')
       = Some [(''Earth'', [(''status'', PStr ''success'')]),
               (''Moon'', [(''status'', PStr ''error''), (''error'', PStr ''boom'')]),
               (''Sun'', [(''status'', PStr ''success'')])]"
    by (simp_all add: process_tasks_mixed)
  from a b c d e show ?thesis by (intro conjI)
qed

section \<open>Feedback\<close>

lemma handlers_return_Cons:
  "handlers_return s ((n, p) # rest) \<longleftrightarrow>
     (case map_of (assistants s) n of
        None \<Rightarrow> True
      | Some a \<Rightarrow> (case assistant_handle_feedback a (wstate a) p of Inl e \<Rightarrow> False | Inr w' \<Rightarrow> True))
     \<and> handlers_return s rest"
  by (simp add: handlers_return_def)

lemma handlers_return_cong:
  assumes "\<forall>n \<in> fst ` set items. map_of (assistants s') n = map_of (assistants s) n"
  shows "handlers_return s' items = handlers_return s items"
  using assms by (induction items) (auto simp: handlers_return_def)

lemma route_feedback_ok:
  assumes "distinct (map fst items)" and "handlers_return s items"
  shows "\<exists>s'. route_feedback s items = (Inr (), s')
     \<and> task_queue s' = task_queue s \<and> results s' = results s
     \<and> map fst (assistants s') = map fst (assistants s)
     \<and> (\<forall>n. map_of (assistants s') n =
           (case map_of items n of
              None \<Rightarrow> map_of (assistants s) n
            | Some p \<Rightarrow> map_option (\<lambda>a. delivered a p) (map_of (assistants s) n)))"
  using assms
proof (induction items arbitrary: s)
  case Nil
  then show ?case by simp
next
  case (Cons item rest)
  obtain n p where item: "item = (n, p)" by (cases item)
  from Cons.prems(1) item have fresh: "n \<notin> fst ` set rest" and dist: "distinct (map fst rest)"
    by auto
  from fresh have rest_n: "map_of rest n = None"
    by (simp add: map_of_eq_None_iff)
  from Cons.prems(2) item have hr: "handlers_return s rest"
    by (simp add: handlers_return_Cons)
  show ?case
  proof (cases "map_of (assistants s) n")
    case None
    from Cons.IH [OF dist hr] obtain s' where
      s': "route_feedback s rest = (Inr (), s')" "task_queue s' = task_queue s"
        "results s' = results s" "map fst (assistants s') = map fst (assistants s)"
        "\<forall>m. map_of (assistants s') m =
           (case map_of rest m of
              None \<Rightarrow> map_of (assistants s) m
            | Some q \<Rightarrow> map_option (\<lambda>a. delivered a q) (map_of (assistants s) m))"
      by blast
    have run: "route_feedback s (item # rest) = (Inr (), s')"
      using None s'(1) item by simp
    have look: "\<forall>m. map_of (assistants s') m =
           (case map_of (item # rest) m of
              None \<Rightarrow> map_of (assistants s) m
            | Some q \<Rightarrow> map_option (\<lambda>a. delivered a q) (map_of (assistants s) m))"
      using s'(5) None rest_n item by auto
    from run s'(2,3,4) look show ?thesis by blast
  next
    case (Some a)
    with Cons.prems(2) item obtain w' where w': "assistant_handle_feedback a (wstate a) p = Inr w'"
      by (auto simp: handlers_return_Cons split: sum.splits)
    let ?s1 = "s\<lparr>assistants := AList.update n (a\<lparr>wstate := w'\<rparr>) (assistants s)\<rparr>"
    have other: "\<And>m. m \<noteq> n \<Longrightarrow> map_of (assistants ?s1) m = map_of (assistants s) m"
      by (simp add: update_conv')
    have "\<forall>m \<in> fst ` set rest. map_of (assistants ?s1) m = map_of (assistants s) m"
    proof
      fix m assume "m \<in> fst ` set rest"
      with fresh have "m \<noteq> n" by auto
      then show "map_of (assistants ?s1) m = map_of (assistants s) m" by (rule other)
    qed
    then have "handlers_return ?s1 rest = handlers_return s rest"
      by (rule handlers_return_cong)
    with hr have hr1: "handlers_return ?s1 rest" by simp
    from Cons.IH [OF dist hr1] obtain s' where
      s': "route_feedback ?s1 rest = (Inr (), s')" "task_queue s' = task_queue ?s1"
        "results s' = results ?s1" "map fst (assistants s') = map fst (assistants ?s1)"
        "\<forall>m. map_of (assistants s') m =
           (case map_of rest m of
              None \<Rightarrow> map_of (assistants ?s1) m
            | Some q \<Rightarrow> map_option (\<lambda>a. delivered a q) (map_of (assistants ?s1) m))"
      by blast
    have run: "route_feedback s (item # rest) = (Inr (), s')"
      using Some w' s'(1) item by simp
    have keys: "map fst (assistants s') = map fst (assistants s)"
      using s'(4) Some by (simp add: keys_update_present)
    have look: "\<forall>m. map_of (assistants s') m =
           (case map_of (item # rest) m of
              None \<Rightarrow> map_of (assistants s) m
            | Some q \<Rightarrow> map_option (\<lambda>a. delivered a q) (map_of (assistants s) m))"
    proof
      fix m
      show "map_of (assistants s') m =
           (case map_of (item # rest) m of
              None \<Rightarrow> map_of (assistants s) m
            | Some q \<Rightarrow> map_option (\<lambda>a. delivered a q) (map_of (assistants s) m))"
      proof (cases "m = n")
        case True
        have "map_of (assistants s') n = map_of (assistants ?s1) n"
          using s'(5) rest_n by simp
        also have "\<dots> = Some (a\<lparr>wstate := w'\<rparr>)" by (simp add: update_conv')
        finally show ?thesis
          using True Some w' item by (simp add: delivered_def)
      next
        case False
        then have eq: "map_of (assistants ?s1) m = map_of (assistants s) m" by (rule other)
        have "map_of (assistants s') m =
           (case map_of rest m of
              None \<Rightarrow> map_of (assistants ?s1) m
            | Some q \<Rightarrow> map_option (\<lambda>a. delivered a q) (map_of (assistants ?s1) m))"
          by (rule s'(5) [rule_format])
        then show ?thesis
          unfolding eq using False item by simp
      qed
    qed
    have q: "task_queue s' = task_queue s"
      by (rule trans [OF s'(2)]) simp
    have rs: "results s' = results s"
      by (rule trans [OF s'(3)]) simp
    from run q rs keys look show ?thesis by blast
  qed
qed

lemma route_feedback_raises:
  assumes "map_of (assistants s) n = Some a"
    and "assistant_handle_feedback a (wstate a) p = Inl e"
  shows "route_feedback s ((n, p) # rest) = (Inl e, s)"
  using assms by simp

lemma handle_feedback_propagates:
  assumes "map_of (results s) tid = Some r"
    and "feedback_items fb = (n, p) # rest"
    and "map_of (assistants s) n = Some a"
    and "assistant_handle_feedback a (wstate a) p = Inl e"
  shows "handle_feedback s tid fb = (Inl e, s)"
  using assms by (simp add: handle_feedback_def)

lemma route_feedback_frame:
  "task_queue (snd (route_feedback s items)) = task_queue s
   \<and> results (snd (route_feedback s items)) = results s
   \<and> task_objects (snd (route_feedback s items)) = task_objects s
   \<and> map fst (assistants (snd (route_feedback s items))) = map fst (assistants s)"
proof (induction items arbitrary: s)
  case Nil
  then show ?case by simp
next
  case (Cons item rest)
  obtain n p where item: "item = (n, p)" by (cases item)
  show ?case
  proof (cases "map_of (assistants s) n")
    case None
    with item Cons.IH [of s] show ?thesis by simp
  next
    case (Some a)
    show ?thesis
    proof (cases "assistant_handle_feedback a (wstate a) p")
      case (Inl e)
      with Some item show ?thesis by simp
    next
      case (Inr w')
      let ?s1 = "s\<lparr>assistants := AList.update n (a\<lparr>wstate := w'\<rparr>) (assistants s)\<rparr>"
      have step: "route_feedback s (item # rest) = route_feedback ?s1 rest"
        using Some Inr item by simp
      have "map fst (assistants ?s1) = map fst (assistants s)"
        using Some by (simp add: keys_update_present)
      with Cons.IH [of ?s1] show ?thesis unfolding step by simp
    qed
  qed
qed

lemma handle_feedback_ok:
  assumes "map_of (results s) tid = Some r"
    and "distinct (map fst (feedback_items fb))"
    and "handlers_return s (feedback_items fb)"
  shows "\<exists>s'. handle_feedback s tid fb = (Inr (), s')
     \<and> task_queue s' = task_queue s
     \<and> task_objects s' = task_objects s
     \<and> results s' =
           AList.update tid (r\<lparr>feedback := Some fb, status := ''completed_with_feedback''\<rparr>) (results s)
     \<and> map fst (assistants s') = map fst (assistants s)
     \<and> (\<forall>n. map_of (assistants s') n =
           (case map_of (feedback_items fb) n of
              None \<Rightarrow> map_of (assistants s) n
            | Some p \<Rightarrow> map_option (\<lambda>a. delivered a p) (map_of (assistants s) n)))"
proof -
  from route_feedback_ok [OF assms(2,3)] obtain s1 where
    s1: "route_feedback s (feedback_items fb) = (Inr (), s1)"
      "task_queue s1 = task_queue s" "results s1 = results s"
      "map fst (assistants s1) = map fst (assistants s)"
      "\<forall>n. map_of (assistants s1) n =
           (case map_of (feedback_items fb) n of
              None \<Rightarrow> map_of (assistants s) n
            | Some p \<Rightarrow> map_option (\<lambda>a. delivered a p) (map_of (assistants s) n))"
    by blast
  let ?r' = "r\<lparr>feedback := Some fb, status := ''completed_with_feedback''\<rparr>"
  let ?s' = "s1\<lparr>results := AList.update tid ?r' (results s1)\<rparr>"
  have look1: "map_of (results s1) tid = Some r"
    using assms(1) by (simp only: s1(3))
  have run: "handle_feedback s tid fb = (Inr (), ?s')"
    by (simp add: handle_feedback_def assms(1) s1(1) look1)
  have a: "task_queue ?s' = task_queue s" by (simp add: s1(2))
  have "task_objects s1 = task_objects s"
    using route_feedback_frame [of s "feedback_items fb"] by (simp add: s1(1))
  then have a2: "task_objects ?s' = task_objects s" by simp
  have b: "results ?s' = AList.update tid ?r' (results s)" by (simp add: s1(3))
  have c: "map fst (assistants ?s') = map fst (assistants s)" by (simp add: s1(4))
  have d: "\<forall>n. map_of (assistants ?s') n =
           (case map_of (feedback_items fb) n of
              None \<Rightarrow> map_of (assistants s) n
            | Some p \<Rightarrow> map_option (\<lambda>a. delivered a p) (map_of (assistants s) n))"
    using s1(5) by simp
  from run a a2 b c d show ?thesis by blast
qed

text \<open>
  When the \<^verbatim>\<open>handle_feedback\<close> of every registered assistant named in the feedback
  returns: \<^verbatim>\<open>handle_feedback\<close> returns, every such assistant has received its sub-payload,
  a name that is not in the registry is skipped, the feedback is stored on the record and
  its status is \<open>completed_with_feedback\<close>, and a second call stores the second
  feedback.
\<close>

lemma handle_feedback_returning_handlers:
  assumes "map_of (results s) tid = Some r"
    and "distinct (map fst (feedback_items fb))"
    and "handlers_return s (feedback_items fb)"
  shows "\<exists>s'. handle_feedback s tid fb = (Inr (), s')
     \<and> (\<forall>(n, p) \<in> set (feedback_items fb).
          (\<forall>a w'. map_of (assistants s) n = Some a \<longrightarrow>
                  assistant_handle_feedback a (wstate a) p = Inr w' \<longrightarrow>
                  map_of (assistants s') n = Some (a\<lparr>wstate := w'\<rparr>))
        \<and> (map_of (assistants s) n = None \<longrightarrow> map_of (assistants s') n = None))
     \<and> (\<forall>n. n \<notin> fst ` set (feedback_items fb) \<longrightarrow>
            map_of (assistants s') n = map_of (assistants s) n)
     \<and> map fst (assistants s') = map fst (assistants s)
     \<and> map_of (results s') tid =
           Some (r\<lparr>feedback := Some fb, status := ''completed_with_feedback''\<rparr>)
     \<and> (\<forall>k. k \<noteq> tid \<longrightarrow> map_of (results s') k = map_of (results s) k)
     \<and> task_queue s' = task_queue s
     \<and> (\<forall>fb2. distinct (map fst (feedback_items fb2)) \<longrightarrow>
               handlers_return s' (feedback_items fb2) \<longrightarrow>
            (\<exists>s2. handle_feedback s' tid fb2 = (Inr (), s2)
               \<and> map_of (results s2) tid =
                     Some (r\<lparr>feedback := Some fb2, status := ''completed_with_feedback''\<rparr>)))"
proof -
  let ?r' = "r\<lparr>feedback := Some fb, status := ''completed_with_feedback''\<rparr>"
  from handle_feedback_ok [OF assms] obtain s' where
    run: "handle_feedback s tid fb = (Inr (), s')"
    and q: "task_queue s' = task_queue s"
    and rs: "results s' = AList.update tid ?r' (results s)"
    and keys: "map fst (assistants s') = map fst (assistants s)"
    and reg: "\<forall>n. map_of (assistants s') n =
           (case map_of (feedback_items fb) n of
              None \<Rightarrow> map_of (assistants s) n
            | Some p \<Rightarrow> map_option (\<lambda>a. delivered a p) (map_of (assistants s) n))"
    by blast
  have named: "\<forall>(n, p) \<in> set (feedback_items fb).
          (\<forall>a w'. map_of (assistants s) n = Some a \<longrightarrow>
                  assistant_handle_feedback a (wstate a) p = Inr w' \<longrightarrow>
                  map_of (assistants s') n = Some (a\<lparr>wstate := w'\<rparr>))
        \<and> (map_of (assistants s) n = None \<longrightarrow> map_of (assistants s') n = None)"
  proof (intro ballI, clarify)
    fix n p assume "(n, p) \<in> set (feedback_items fb)"
    with assms(2) have "map_of (feedback_items fb) n = Some p" by simp
    with reg have eq: "map_of (assistants s') n = map_option (\<lambda>a. delivered a p) (map_of (assistants s) n)"
      by simp
    show "(\<forall>a w'. map_of (assistants s) n = Some a \<longrightarrow>
                  assistant_handle_feedback a (wstate a) p = Inr w' \<longrightarrow>
                  map_of (assistants s') n = Some (a\<lparr>wstate := w'\<rparr>))
        \<and> (map_of (assistants s) n = None \<longrightarrow> map_of (assistants s') n = None)"
      unfolding eq by (simp add: delivered_def)
  qed
  have unnamed: "\<forall>n. n \<notin> fst ` set (feedback_items fb) \<longrightarrow>
            map_of (assistants s') n = map_of (assistants s) n"
  proof (intro allI impI)
    fix n assume "n \<notin> fst ` set (feedback_items fb)"
    then have "map_of (feedback_items fb) n = None" by (simp add: map_of_eq_None_iff)
    with reg show "map_of (assistants s') n = map_of (assistants s) n" by simp
  qed
  have look: "map_of (results s') tid = Some ?r'"
    unfolding rs by (simp add: update_conv')
  have others: "\<forall>k. k \<noteq> tid \<longrightarrow> map_of (results s') k = map_of (results s) k"
    unfolding rs by (simp add: update_conv')
  have again: "\<forall>fb2. distinct (map fst (feedback_items fb2)) \<longrightarrow>
               handlers_return s' (feedback_items fb2) \<longrightarrow>
            (\<exists>s2. handle_feedback s' tid fb2 = (Inr (), s2)
               \<and> map_of (results s2) tid =
                     Some (r\<lparr>feedback := Some fb2, status := ''completed_with_feedback''\<rparr>))"
  proof (intro allI impI)
    fix fb2
    assume d2: "distinct (map fst (feedback_items fb2))"
      and h2: "handlers_return s' (feedback_items fb2)"
    from handle_feedback_ok [OF look d2 h2] obtain s2 where
      run2: "handle_feedback s' tid fb2 = (Inr (), s2)"
      and rs2: "results s2 =
          AList.update tid (?r'\<lparr>feedback := Some fb2, status := ''completed_with_feedback''\<rparr>) (results s')"
      by blast
    have "map_of (results s2) tid =
        Some (r\<lparr>feedback := Some fb2, status := ''completed_with_feedback''\<rparr>)"
      unfolding rs2 by (simp add: update_conv')
    with run2 show "\<exists>s2. handle_feedback s' tid fb2 = (Inr (), s2)
               \<and> map_of (results s2) tid =
                     Some (r\<lparr>feedback := Some fb2, status := ''completed_with_feedback''\<rparr>)"
      by blast
  qed
  from run named unnamed keys look others q again show ?thesis by blast
qed

lemma handle_feedback_counting:
  "handle_feedback counting_orchestrator ''task_100_0'' (example_feedback note) =
     (Inr (),
      counting_orchestrator
       \<lparr>assistants := [(''Earth'', counting_assistant\<lparr>wstate := 1\<rparr>), (''Moon'', strict_assistant),
                       (''Sun'', counting_assistant)],
        results := [(''task_100_0'',
                    pending_result\<lparr>feedback := Some (example_feedback note),
                                     status := ''completed_with_feedback''\<rparr>)]\<rparr>)"
  by (simp add: counting_orchestrator_eq handle_feedback_def feedback_items_def
        example_feedback_def counting_assistant_def)

lemma handle_feedback_refused:
  "handle_feedback counting_orchestrator ''task_100_0'' refused_feedback =
     (Inl (WorkerError ''object has no attribute get''), counting_orchestrator)"
  by (simp add: counting_orchestrator_eq handle_feedback_def feedback_items_def
        refused_feedback_def strict_assistant_def)

text \<open>
  Claim C6 fails on the code: \<^verbatim>\<open>handle_feedback\<close> calls the assistants without a
  \<^verbatim>\<open>try\<close>. Here the task exists and the feedback names Moon, whose \<^verbatim>\<open>handle_feedback\<close>
  raises on a payload that is not a dictionary, and then Earth: the call raises, Earth has
  not received its sub-payload, the feedback is not stored and the status of the task is
  still \<open>pending\<close>.
\<close>

theorem handle_feedback_handler_raises:
  "map_of (results counting_orchestrator) ''task_100_0'' = Some pending_result
   \<and> feedback_items refused_feedback
       = [(''Moon'', PStr ''well done''), (''Earth'', PDict [(''is_successful'', PBool True)])]
   \<and> fst (handle_feedback counting_orchestrator ''task_100_0'' refused_feedback)
       = Inl (WorkerError ''object has no attribute get'')
   \<and> map_option wstate
        (map_of (assistants (snd (handle_feedback counting_orchestrator ''task_100_0''
                                    refused_feedback))) ''Earth'') = Some 0
   \<and> map_option status
        (map_of (results (snd (handle_feedback counting_orchestrator ''task_100_0''
                                 refused_feedback))) ''task_100_0'') = Some ''pending''
   \<and> map_option feedback
        (map_of (results (snd (handle_feedback counting_orchestrator ''task_100_0''
                                 refused_feedback))) ''task_100_0'') = Some None"
  by (simp add: handle_feedback_refused)
     (simp add: counting_orchestrator_eq refused_feedback_def feedback_items_def
        pending_result_def counting_assistant_def)

text \<open>
  Claim C9. For an id that is not in the results store \<^verbatim>\<open>handle_feedback\<close> returns
  without raising and leaves registry, queue and results store as they were, whatever the
  feedback names and whatever the assistants would do with it.
\<close>

theorem handle_feedback_unknown_id:
  "map_of (results s) tid = None \<Longrightarrow> handle_feedback s tid fb = (Inr (), s)"
  by (simp add: handle_feedback_def)

theorem handle_feedback_unknown_id_witness:
  "map_of (results mixed_orchestrator) ''task_7_7'' = None
   \<and> map_option (\<lambda>a. assistant_handle_feedback a (wstate a) PNone)
        (map_of (assistants mixed_orchestrator) ''Moon'') = Some (Inl (WorkerError ''no feedback''))
   \<and> handle_feedback mixed_orchestrator ''task_7_7''
         \<lparr>assistant_feedback = Some [(''Moon'', PNone)], feedback_fields = []\<rparr>
       = (Inr (), mixed_orchestrator)"
  using handle_feedback_unknown_id
          [of mixed_orchestrator "''task_7_7''"
              "\<lparr>assistant_feedback = Some [(''Moon'', PNone)], feedback_fields = []\<rparr>"]
  by (simp add: mixed_orchestrator_eq failing_assistant_def)

section \<open>The counter of completed tasks\<close>

lemma count_completed_update:
  assumes "distinct (map fst rs)" and "map_of rs k = Some v"
  shows "count_completed (AList.update k v' rs) + (if is_completed v then 1 else 0)
         = count_completed rs + (if is_completed v' then 1 else 0)"
  using assms
proof (induction rs)
  case Nil
  then show ?case by simp
next
  case (Cons x rs)
  obtain k0 v0 where x: "x = (k0, v0)" by (cases x)
  show ?case
  proof (cases "k0 = k")
    case True
    with Cons.prems x have "v0 = v" by simp
    with True x show ?thesis by (simp add: count_completed_def)
  next
    case False
    with Cons.prems x have "distinct (map fst rs)" "map_of rs k = Some v" by simp_all
    then have "count_completed (AList.update k v' rs) + (if is_completed v then 1 else 0)
         = count_completed rs + (if is_completed v' then 1 else 0)"
      by (rule Cons.IH)
    with False x show ?thesis by (simp add: count_completed_def)
  qed
qed

lemma current_load_of_ok:
  "list_all (\<lambda>a. assigned_assistants (h a) \<noteq> None) q \<Longrightarrow>
   \<exists>n. current_load_of name (map h q) = Inr n"
  by (induction q) auto

lemma get_assistant_status_ok:
  assumes "map_of (assistants s) name \<noteq> None" and "map_of ASSISTANTS name \<noteq> None"
    and "list_all (\<lambda>a. assigned_assistants (task_objects s a) \<noteq> None) (task_queue s)"
  shows "\<exists>reply. get_assistant_status s name = (Inr reply, s)"
proof -
  from assms(1) obtain a where a: "map_of (assistants s) name = Some a" by auto
  from assms(2) obtain caps where c: "map_of ASSISTANTS name = Some caps" by auto
  from current_load_of_ok [OF assms(3)] obtain n where
    n: "current_load_of name (map (task_objects s) (task_queue s)) = Inr n"
    by blast
  show ?thesis by (simp add: get_assistant_status_def a c n)
qed

lemma all_assistant_status_ok:
  assumes "list_all (\<lambda>n. map_of (assistants s) n \<noteq> None \<and> map_of ASSISTANTS n \<noteq> None) names"
    and "list_all (\<lambda>a. assigned_assistants (task_objects s a) \<noteq> None) (task_queue s)"
  shows "\<exists>replies. all_assistant_status s names = Inr replies"
  using assms(1)
proof (induction names)
  case Nil
  then show ?case by simp
next
  case (Cons name names)
  then have "map_of (assistants s) name \<noteq> None" "map_of ASSISTANTS name \<noteq> None" by simp_all
  from get_assistant_status_ok [OF this assms(2)] obtain reply where
    r: "get_assistant_status s name = (Inr reply, s)" by blast
  from Cons obtain replies where rs: "all_assistant_status s names = Inr replies" by auto
  show ?case by (simp add: r rs)
qed

lemma registered_names:
  "list_all (\<lambda>n. map_of al n \<noteq> None) (map fst al)"
  by (auto simp: list_all_iff map_of_eq_None_iff)

lemma get_system_status_ok:
  assumes "status_ready s"
  shows "\<exists>st. get_system_status s = (Inr st, s)
           \<and> completed_tasks st = count_completed (results s)
           \<and> pending_tasks st = length (task_queue s)
           \<and> active_assistants st = length (assistants s)"
proof -
  have "list_all (\<lambda>n. map_of (assistants s) n \<noteq> None \<and> map_of ASSISTANTS n \<noteq> None)
          (map fst (assistants s))"
    using assms registered_names [of "assistants s"]
    by (simp add: status_ready_def list_all_iff)
  moreover have "list_all (\<lambda>a. assigned_assistants (task_objects s a) \<noteq> None) (task_queue s)"
    using assms by (simp add: status_ready_def)
  ultimately obtain replies where "all_assistant_status s (map fst (assistants s)) = Inr replies"
    using all_assistant_status_ok by blast
  then show ?thesis by (simp add: get_system_status_def)
qed

lemma status_ready_cong:
  "map fst (assistants s') = map fst (assistants s) \<Longrightarrow> task_queue s' = task_queue s \<Longrightarrow>
   task_objects s' = task_objects s \<Longrightarrow> status_ready s' = status_ready s"
  by (simp add: status_ready_def)

lemma status_ready_drained:
  "status_ready s \<Longrightarrow> status_ready (s\<lparr>task_queue := []\<rparr>)"
  by (simp add: status_ready_def)

lemma is_completed_finalized:
  "is_completed (finalized now q) \<longleftrightarrow> status (finalized now q) = ''success''"
  by (simp add: is_completed_def finalized_status)

lemma process_tasks_single:
  assumes "assistants s \<noteq> []" and "task_queue s = [a]"
  shows "process_tasks s clock = process_one (s\<lparr>task_queue := []\<rparr>) (clock 0) a"
  using assms by (simp add: process_tasks_def split: prod.splits sum.splits)

text \<open>The counter after one turn of the loop on a task of record \<open>r\<close>.\<close>

lemma counter_after_turn:
  assumes "status_ready s" and "distinct (map fst (results s))"
    and "map_of (results s) tid = Some r"
    and "task_id (task_objects s a) = Some tid"
    and "assigned_assistants (task_objects s a) = Some names"
  shows "\<exists>s' r' st'. process_one s now a = (Inr (), s')
     \<and> map_of (results s') tid = Some r'
     \<and> get_system_status s' = (Inr st', s')
     \<and> (status r' = ''success'' \<or> status r' = ''partial_success'')
     \<and> completed_tasks st' + (if is_completed r then 1 else 0)
         = count_completed (results s) + (if status r' = ''success'' then 1 else 0)"
proof -
  define r' where "r' = finalized now (collected s (task_objects s a) names r)"
  define s' where "s' = s\<lparr>results := AList.update tid r' (results s)\<rparr>"
  have run: "process_one s now a = (Inr (), s')"
    unfolding s'_def r'_def using assms(4,5,3) by (rule process_one_Some)
  have look: "map_of (results s') tid = Some r'" by (simp add: s'_def update_conv')
  have "status_ready s' = status_ready s"
    by (rule status_ready_cong) (simp_all add: s'_def)
  with assms(1) have "status_ready s'" by simp
  from get_system_status_ok [OF this] obtain st' where
    st': "get_system_status s' = (Inr st', s')" "completed_tasks st' = count_completed (results s')"
    by blast
  have "count_completed (AList.update tid r' (results s)) + (if is_completed r then 1 else 0)
         = count_completed (results s) + (if is_completed r' then 1 else 0)"
    using assms(2,3) by (rule count_completed_update)
  then have cnt: "completed_tasks st' + (if is_completed r then 1 else 0)
         = count_completed (results s) + (if status r' = ''success'' then 1 else 0)"
    by (simp add: st'(2) s'_def) (simp add: r'_def is_completed_finalized)
  have two: "status r' = ''success'' \<or> status r' = ''partial_success''"
    by (simp add: r'_def finalized_status)
  from run look st'(1) two cnt show ?thesis by blast
qed

text \<open>
  Claim C5, as amended. \<^verbatim>\<open>completed_tasks\<close> is the number of records whose status is
  \<open>success\<close> or \<open>completed_with_feedback\<close>, and asking for it changes nothing. When a
  task that does not count is processed, the number goes up by one if the task reaches
  \<open>success\<close> and stays if it reaches \<open>partial_success\<close>; when a task that counts is
  processed, the number stays if the task reaches \<open>success\<close> and goes down by one if it
  reaches \<open>partial_success\<close>. Feedback whose handlers all return makes the status
  \<open>completed_with_feedback\<close>: on a task that does not count it adds one, on a task that
  counts it changes nothing. The same is said of \<^verbatim>\<open>process_tasks\<close> on a queue that holds
  the task alone. The orchestrator is one whose results store has one entry per id and
  whose queries return, as every orchestrator built by the operations is
  (\<open>reachable_ready\<close>).
\<close>

theorem completed_tasks_counts:
  assumes "status_ready s" and "distinct (map fst (results s))"
    and "map_of (results s) tid = Some r"
  shows "\<exists>st. get_system_status s = (Inr st, s)
     \<and> completed_tasks st = count_completed (results s)
     \<and> get_system_status (snd (get_system_status s)) = get_system_status s
     \<and> (\<forall>a names now. task_id (task_objects s a) = Some tid \<longrightarrow>
            assigned_assistants (task_objects s a) = Some names \<longrightarrow>
          (\<exists>s' r' st'. process_one s now a = (Inr (), s')
             \<and> map_of (results s') tid = Some r'
             \<and> get_system_status s' = (Inr st', s')
             \<and> (status r' = ''success'' \<or> status r' = ''partial_success'')
             \<and> (\<not> is_completed r \<longrightarrow> status r' = ''success'' \<longrightarrow>
                   completed_tasks st' = completed_tasks st + 1)
             \<and> (\<not> is_completed r \<longrightarrow> status r' = ''partial_success'' \<longrightarrow>
                   completed_tasks st' = completed_tasks st)
             \<and> (is_completed r \<longrightarrow> status r' = ''success'' \<longrightarrow>
                   completed_tasks st' = completed_tasks st)
             \<and> (is_completed r \<longrightarrow> status r' = ''partial_success'' \<longrightarrow>
                   completed_tasks st' + 1 = completed_tasks st)))
     \<and> (\<forall>a names clock. assistants s \<noteq> [] \<longrightarrow> task_queue s = [a] \<longrightarrow>
            task_id (task_objects s a) = Some tid \<longrightarrow>
            assigned_assistants (task_objects s a) = Some names \<longrightarrow>
          (\<exists>s' r' st'. process_tasks s clock = (Inr (), s')
             \<and> map_of (results s') tid = Some r'
             \<and> get_system_status s' = (Inr st', s')
             \<and> (status r' = ''success'' \<or> status r' = ''partial_success'')
             \<and> (\<not> is_completed r \<longrightarrow> status r' = ''success'' \<longrightarrow>
                   completed_tasks st' = completed_tasks st + 1)
             \<and> (\<not> is_completed r \<longrightarrow> status r' = ''partial_success'' \<longrightarrow>
                   completed_tasks st' = completed_tasks st)
             \<and> (is_completed r \<longrightarrow> status r' = ''success'' \<longrightarrow>
                   completed_tasks st' = completed_tasks st)
             \<and> (is_completed r \<longrightarrow> status r' = ''partial_success'' \<longrightarrow>
                   completed_tasks st' + 1 = completed_tasks st)))
     \<and> (\<forall>fb. distinct (map fst (feedback_items fb)) \<longrightarrow> handlers_return s (feedback_items fb) \<longrightarrow>
          (\<exists>s' r' st'. handle_feedback s tid fb = (Inr (), s')
             \<and> map_of (results s') tid = Some r'
             \<and> status r' = ''completed_with_feedback''
             \<and> get_system_status s' = (Inr st', s')
             \<and> (\<not> is_completed r \<longrightarrow> completed_tasks st' = completed_tasks st + 1)
             \<and> (is_completed r \<longrightarrow> completed_tasks st' = completed_tasks st)))"
proof -
  from get_system_status_ok [OF assms(1)] obtain st where
    st: "get_system_status s = (Inr st, s)" "completed_tasks st = count_completed (results s)"
    by blast
  have again: "get_system_status (snd (get_system_status s)) = get_system_status s"
    by (simp add: st(1))
  have turn: "\<forall>a names now. task_id (task_objects s a) = Some tid \<longrightarrow>
            assigned_assistants (task_objects s a) = Some names \<longrightarrow>
          (\<exists>s' r' st'. process_one s now a = (Inr (), s')
             \<and> map_of (results s') tid = Some r'
             \<and> get_system_status s' = (Inr st', s')
             \<and> (status r' = ''success'' \<or> status r' = ''partial_success'')
             \<and> (\<not> is_completed r \<longrightarrow> status r' = ''success'' \<longrightarrow>
                   completed_tasks st' = completed_tasks st + 1)
             \<and> (\<not> is_completed r \<longrightarrow> status r' = ''partial_success'' \<longrightarrow>
                   completed_tasks st' = completed_tasks st)
             \<and> (is_completed r \<longrightarrow> status r' = ''success'' \<longrightarrow>
                   completed_tasks st' = completed_tasks st)
             \<and> (is_completed r \<longrightarrow> status r' = ''partial_success'' \<longrightarrow>
                   completed_tasks st' + 1 = completed_tasks st))"
  proof (intro allI impI)
    fix a names now
    assume t: "task_id (task_objects s a) = Some tid"
      "assigned_assistants (task_objects s a) = Some names"
    from counter_after_turn [OF assms t, of now] obtain s' r' st' where
      run: "process_one s now a = (Inr (), s')"
      and look: "map_of (results s') tid = Some r'"
      and q: "get_system_status s' = (Inr st', s')"
      and two: "status r' = ''success'' \<or> status r' = ''partial_success''"
      and cnt: "completed_tasks st' + (if is_completed r then 1 else 0)
         = count_completed (results s) + (if status r' = ''success'' then 1 else 0)"
      by blast
    have c1: "\<not> is_completed r \<longrightarrow> status r' = ''success'' \<longrightarrow>
                   completed_tasks st' = completed_tasks st + 1"
      using cnt st(2) by (auto split: if_splits)
    have c2: "\<not> is_completed r \<longrightarrow> status r' = ''partial_success'' \<longrightarrow>
                   completed_tasks st' = completed_tasks st"
      using cnt st(2) by (auto split: if_splits)
    have c3: "is_completed r \<longrightarrow> status r' = ''success'' \<longrightarrow>
                   completed_tasks st' = completed_tasks st"
      using cnt st(2) by (auto split: if_splits)
    have c4: "is_completed r \<longrightarrow> status r' = ''partial_success'' \<longrightarrow>
                   completed_tasks st' + 1 = completed_tasks st"
      using cnt st(2) by (auto split: if_splits)
    from run look q two c1 c2 c3 c4
    show "\<exists>s' r' st'. process_one s now a = (Inr (), s')
             \<and> map_of (results s') tid = Some r'
             \<and> get_system_status s' = (Inr st', s')
             \<and> (status r' = ''success'' \<or> status r' = ''partial_success'')
             \<and> (\<not> is_completed r \<longrightarrow> status r' = ''success'' \<longrightarrow>
                   completed_tasks st' = completed_tasks st + 1)
             \<and> (\<not> is_completed r \<longrightarrow> status r' = ''partial_success'' \<longrightarrow>
                   completed_tasks st' = completed_tasks st)
             \<and> (is_completed r \<longrightarrow> status r' = ''success'' \<longrightarrow>
                   completed_tasks st' = completed_tasks st)
             \<and> (is_completed r \<longrightarrow> status r' = ''partial_success'' \<longrightarrow>
                   completed_tasks st' + 1 = completed_tasks st)"
      by blast
  qed
  have whole: "\<forall>a names clock. assistants s \<noteq> [] \<longrightarrow> task_queue s = [a] \<longrightarrow>
            task_id (task_objects s a) = Some tid \<longrightarrow>
            assigned_assistants (task_objects s a) = Some names \<longrightarrow>
          (\<exists>s' r' st'. process_tasks s clock = (Inr (), s')
             \<and> map_of (results s') tid = Some r'
             \<and> get_system_status s' = (Inr st', s')
             \<and> (status r' = ''success'' \<or> status r' = ''partial_success'')
             \<and> (\<not> is_completed r \<longrightarrow> status r' = ''success'' \<longrightarrow>
                   completed_tasks st' = completed_tasks st + 1)
             \<and> (\<not> is_completed r \<longrightarrow> status r' = ''partial_success'' \<longrightarrow>
                   completed_tasks st' = completed_tasks st)
             \<and> (is_completed r \<longrightarrow> status r' = ''success'' \<longrightarrow>
                   completed_tasks st' = completed_tasks st)
             \<and> (is_completed r \<longrightarrow> status r' = ''partial_success'' \<longrightarrow>
                   completed_tasks st' + 1 = completed_tasks st))"
  proof (intro allI impI)
    fix a names clock
    assume ne: "assistants s \<noteq> []" and q1: "task_queue s = [a]"
      and t: "task_id (task_objects s a) = Some tid"
      "assigned_assistants (task_objects s a) = Some names"
    define s0 where "s0 = s\<lparr>task_queue := []\<rparr>"
    have pt: "process_tasks s clock = process_one s0 (clock 0) a"
      unfolding s0_def using ne q1 by (rule process_tasks_single)
    have sr0: "status_ready s0" unfolding s0_def using assms(1) by (rule status_ready_drained)
    have d0: "distinct (map fst (results s0))" using assms(2) by (simp add: s0_def)
    have l0: "map_of (results s0) tid = Some r" using assms(3) by (simp add: s0_def)
    have t0: "task_id (task_objects s0 a) = Some tid"
      "assigned_assistants (task_objects s0 a) = Some names"
      using t by (simp_all add: s0_def)
    have rs0: "results s0 = results s" by (simp add: s0_def)
    from counter_after_turn [OF sr0 d0 l0 t0, of "clock 0"] obtain s' r' st' where
      run: "process_one s0 (clock 0) a = (Inr (), s')"
      and look: "map_of (results s') tid = Some r'"
      and q: "get_system_status s' = (Inr st', s')"
      and two: "status r' = ''success'' \<or> status r' = ''partial_success''"
      and cnt: "completed_tasks st' + (if is_completed r then 1 else 0)
         = count_completed (results s0) + (if status r' = ''success'' then 1 else 0)"
      by blast
    have run': "process_tasks s clock = (Inr (), s')" using pt run by simp
    have c1: "\<not> is_completed r \<longrightarrow> status r' = ''success'' \<longrightarrow>
                   completed_tasks st' = completed_tasks st + 1"
      using cnt st(2) rs0 by (auto split: if_splits)
    have c2: "\<not> is_completed r \<longrightarrow> status r' = ''partial_success'' \<longrightarrow>
                   completed_tasks st' = completed_tasks st"
      using cnt st(2) rs0 by (auto split: if_splits)
    have c3: "is_completed r \<longrightarrow> status r' = ''success'' \<longrightarrow>
                   completed_tasks st' = completed_tasks st"
      using cnt st(2) rs0 by (auto split: if_splits)
    have c4: "is_completed r \<longrightarrow> status r' = ''partial_success'' \<longrightarrow>
                   completed_tasks st' + 1 = completed_tasks st"
      using cnt st(2) rs0 by (auto split: if_splits)
    from run' look q two c1 c2 c3 c4
    show "\<exists>s' r' st'. process_tasks s clock = (Inr (), s')
             \<and> map_of (results s') tid = Some r'
             \<and> get_system_status s' = (Inr st', s')
             \<and> (status r' = ''success'' \<or> status r' = ''partial_success'')
             \<and> (\<not> is_completed r \<longrightarrow> status r' = ''success'' \<longrightarrow>
                   completed_tasks st' = completed_tasks st + 1)
             \<and> (\<not> is_completed r \<longrightarrow> status r' = ''partial_success'' \<longrightarrow>
                   completed_tasks st' = completed_tasks st)
             \<and> (is_completed r \<longrightarrow> status r' = ''success'' \<longrightarrow>
                   completed_tasks st' = completed_tasks st)
             \<and> (is_completed r \<longrightarrow> status r' = ''partial_success'' \<longrightarrow>
                   completed_tasks st' + 1 = completed_tasks st)"
      by blast
  qed
  have fbk: "\<forall>fb. distinct (map fst (feedback_items fb)) \<longrightarrow> handlers_return s (feedback_items fb) \<longrightarrow>
          (\<exists>s' r' st'. handle_feedback s tid fb = (Inr (), s')
             \<and> map_of (results s') tid = Some r'
             \<and> status r' = ''completed_with_feedback''
             \<and> get_system_status s' = (Inr st', s')
             \<and> (\<not> is_completed r \<longrightarrow> completed_tasks st' = completed_tasks st + 1)
             \<and> (is_completed r \<longrightarrow> completed_tasks st' = completed_tasks st))"
  proof (intro allI impI)
    fix fb
    assume d: "distinct (map fst (feedback_items fb))" and h: "handlers_return s (feedback_items fb)"
    define r' where "r' = r\<lparr>feedback := Some fb, status := ''completed_with_feedback''\<rparr>"
    from handle_feedback_ok [OF assms(3) d h] obtain s' where
      run: "handle_feedback s tid fb = (Inr (), s')"
      and q: "task_queue s' = task_queue s"
      and hp: "task_objects s' = task_objects s"
      and rs: "results s' = AList.update tid r' (results s)"
      and keys: "map fst (assistants s') = map fst (assistants s)"
      unfolding r'_def by blast
    have look: "map_of (results s') tid = Some r'" by (simp add: rs update_conv')
    have cw: "status r' = ''completed_with_feedback''" by (simp add: r'_def)
    have "status_ready s' = status_ready s" using keys q hp by (rule status_ready_cong)
    with assms(1) have "status_ready s'" by simp
    from get_system_status_ok [OF this] obtain st' where
      st': "get_system_status s' = (Inr st', s')" "completed_tasks st' = count_completed (results s')"
      by blast
    have "count_completed (AList.update tid r' (results s)) + (if is_completed r then 1 else 0)
         = count_completed (results s) + (if is_completed r' then 1 else 0)"
      using assms(2,3) by (rule count_completed_update)
    then have cnt: "completed_tasks st' + (if is_completed r then 1 else 0) = completed_tasks st + 1"
      by (simp add: st'(2) st(2) rs) (simp add: r'_def is_completed_def)
    have c1: "\<not> is_completed r \<longrightarrow> completed_tasks st' = completed_tasks st + 1"
      using cnt by (auto split: if_splits)
    have c2: "is_completed r \<longrightarrow> completed_tasks st' = completed_tasks st"
      using cnt by (auto split: if_splits)
    from run look cw st'(1) c1 c2
    show "\<exists>s' r' st'. handle_feedback s tid fb = (Inr (), s')
             \<and> map_of (results s') tid = Some r'
             \<and> status r' = ''completed_with_feedback''
             \<and> get_system_status s' = (Inr st', s')
             \<and> (\<not> is_completed r \<longrightarrow> completed_tasks st' = completed_tasks st + 1)
             \<and> (is_completed r \<longrightarrow> completed_tasks st' = completed_tasks st)"
      by blast
  qed
  from st again turn whole fbk show ?thesis by blast
qed

lemma get_system_status_mixed:
  "map_sum id completed_tasks (fst (get_system_status mixed_orchestrator)) = Inr 0"
  by (simp add: mixed_orchestrator_eq get_system_status_def get_assistant_status_def
        ASSISTANTS_def count_completed_def is_completed_def pending_result_def)

lemma get_system_status_mixed_processed:
  "map_sum id completed_tasks
     (fst (get_system_status (snd (process_tasks mixed_orchestrator (\<lambda>i. 7))))) = Inr 0"
  by (simp add: process_tasks_mixed)
     (simp add: mixed_orchestrator_eq get_system_status_def get_assistant_status_def
        ASSISTANTS_def count_completed_def is_completed_def)

text \<open>
  Claim C5 as stated fails: the task of this orchestrator reaches \<open>partial_success\<close>
  for the first time and \<^verbatim>\<open>completed_tasks\<close> stays at 0.
\<close>

theorem completed_tasks_counterexample:
  "map_option status (map_of (results mixed_orchestrator) ''task_100_0'') = Some ''pending''
   \<and> map_option status
        (map_of (results (snd (process_tasks mixed_orchestrator (\<lambda>i. 7)))) ''task_100_0'')
       = Some ''partial_success''
   \<and> map_sum id completed_tasks (fst (get_system_status mixed_orchestrator)) = Inr 0
   \<and> map_sum id completed_tasks
        (fst (get_system_status (snd (process_tasks mixed_orchestrator (\<lambda>i. 7))))) = Inr 0
   \<and> map_sum id completed_tasks
        (fst (get_system_status (snd (process_tasks mixed_orchestrator (\<lambda>i. 7)))))
       \<noteq> map_sum id (\<lambda>st. completed_tasks st + 1) (fst (get_system_status mixed_orchestrator))"
proof -
  have a: "map_option status (map_of (results mixed_orchestrator) ''task_100_0'') = Some ''pending''"
    by (simp add: mixed_orchestrator_eq pending_result_def)
  have b: "map_option status
        (map_of (results (snd (process_tasks mixed_orchestrator (\<lambda>i. 7)))) ''task_100_0'')
       = Some ''partial_success''"
    by (simp add: process_tasks_mixed)
  have e: "map_sum id completed_tasks
        (fst (get_system_status (snd (process_tasks mixed_orchestrator (\<lambda>i. 7)))))
       \<noteq> map_sum id (\<lambda>st. completed_tasks st + 1) (fst (get_system_status mixed_orchestrator))"
    using get_system_status_mixed get_system_status_mixed_processed
    by (cases "fst (get_system_status mixed_orchestrator)") auto
  from a b get_system_status_mixed get_system_status_mixed_processed e show ?thesis
    by (intro conjI)
qed

lemma mixed_with_feedback_eq:
  "mixed_with_feedback =
     mixed_orchestrator
       \<lparr>results := [(''task_100_0'',
                    pending_result\<lparr>feedback := Some plain_feedback,
                                     status := ''completed_with_feedback''\<rparr>)]\<rparr>"
  by (simp add: mixed_with_feedback_def mixed_orchestrator_eq handle_feedback_def
        feedback_items_def plain_feedback_def)

lemma process_tasks_mixed_with_feedback:
  "map_option status
     (map_of (results (snd (process_tasks mixed_with_feedback (\<lambda>i. 7)))) ''task_100_0'')
     = Some ''partial_success''"
  "map_sum id completed_tasks
     (fst (get_system_status (snd (process_tasks mixed_with_feedback (\<lambda>i. 7))))) = Inr 0"
  by (simp_all add: mixed_with_feedback_eq mixed_orchestrator_eq process_tasks_def
        process_one_def collect_result_def store_result_def process_task_with_assistant_def
        ok_assistant_def failing_assistant_def error_entry_def combine_results_def
        build_combined_result_def all_successful_def extract_field_def py_get_def
        pending_result_def Let_def get_system_status_def get_assistant_status_def
        ASSISTANTS_def count_completed_def is_completed_def)

lemma process_tasks_counting:
  "map_option status
     (map_of (results (snd (process_tasks counting_orchestrator (\<lambda>i. 7)))) ''task_100_0'')
     = Some ''success''"
  "map_sum id completed_tasks
     (fst (get_system_status (snd (process_tasks counting_orchestrator (\<lambda>i. 7))))) = Inr 1"
  by (simp_all add: counting_orchestrator_eq process_tasks_def
        process_one_def collect_result_def store_result_def process_task_with_assistant_def
        counting_assistant_def strict_assistant_def combine_results_def
        build_combined_result_def all_successful_def extract_field_def py_get_def
        pending_result_def Let_def get_system_status_def get_assistant_status_def
        ASSISTANTS_def count_completed_def is_completed_def)

theorem completed_tasks_counts_witness:
  "status_ready counting_orchestrator
   \<and> distinct (map fst (results counting_orchestrator))
   \<and> map_of (results counting_orchestrator) ''task_100_0'' = Some pending_result
   \<and> \<not> is_completed pending_result
   \<and> map_sum id completed_tasks (fst (get_system_status counting_orchestrator)) = Inr 0
   \<and> map_sum id completed_tasks
        (fst (get_system_status (snd (process_tasks counting_orchestrator (\<lambda>i. 7))))) = Inr 1
   \<and> map_sum id completed_tasks
        (fst (get_system_status
               (snd (handle_feedback counting_orchestrator ''task_100_0'' (example_feedback ''first'')))))
       = Inr 1
   \<and> status_ready mixed_with_feedback
   \<and> map_option is_completed (map_of (results mixed_with_feedback) ''task_100_0'') = Some True
   \<and> map_sum id completed_tasks (fst (get_system_status mixed_with_feedback)) = Inr 1
   \<and> map_option status
        (map_of (results (snd (process_tasks mixed_with_feedback (\<lambda>i. 7)))) ''task_100_0'')
       = Some ''partial_success''
   \<and> map_sum id completed_tasks
        (fst (get_system_status (snd (process_tasks mixed_with_feedback (\<lambda>i. 7))))) = Inr 0"
proof -
  note th = completed_tasks_counts [of counting_orchestrator "''task_100_0''" pending_result]
  have a: "status_ready counting_orchestrator"
    by (simp add: counting_orchestrator_eq status_ready_def ASSISTANTS_def)
  have b: "distinct (map fst (results counting_orchestrator))"
    by (simp add: counting_orchestrator_eq)
  have c: "map_of (results counting_orchestrator) ''task_100_0'' = Some pending_result"
    by (simp add: counting_orchestrator_eq)
  have c': "\<not> is_completed pending_result"
    by (simp add: is_completed_def pending_result_def)
  have d: "map_sum id completed_tasks (fst (get_system_status counting_orchestrator)) = Inr 0"
    by (simp add: counting_orchestrator_eq get_system_status_def get_assistant_status_def
          ASSISTANTS_def count_completed_def is_completed_def pending_result_def)
  have f: "map_sum id completed_tasks
        (fst (get_system_status
               (snd (handle_feedback counting_orchestrator ''task_100_0'' (example_feedback ''first'')))))
       = Inr 1"
    unfolding handle_feedback_counting
    by (simp add: counting_orchestrator_eq get_system_status_def get_assistant_status_def
          ASSISTANTS_def count_completed_def is_completed_def pending_result_def)
  have g: "status_ready mixed_with_feedback"
    by (simp add: mixed_with_feedback_eq mixed_orchestrator_eq status_ready_def ASSISTANTS_def)
  have h: "map_option is_completed (map_of (results mixed_with_feedback) ''task_100_0'') = Some True"
    by (simp add: mixed_with_feedback_eq is_completed_def)
  have i: "map_sum id completed_tasks (fst (get_system_status mixed_with_feedback)) = Inr 1"
    by (simp add: mixed_with_feedback_eq mixed_orchestrator_eq get_system_status_def
          get_assistant_status_def ASSISTANTS_def count_completed_def is_completed_def)
  from th [OF a b c] a b c c' d process_tasks_counting(2) f g h i
       process_tasks_mixed_with_feedback
  show ?thesis by blast
qed

section \<open>Task ids\<close>

lemma first_submission_eq:
  "first_submission =
     (Inr ''task_100_0'',
      \<lparr>assistants = [(''Earth'', ok_assistant), (''Moon'', ok_assistant), (''Sun'', ok_assistant)],
       task_queue = [0],
       results = [(''task_100_0'', pending_result)],
       task_objects =
         (store_of [example_task ''code_generation'', example_task ''syntax_check''])
           (0 := \<lparr>task_type = Some (PStr ''code_generation''), task_fields = [],
                   task_id = Some ''task_100_0'', task_status = Some ''pending'',
                   task_timestamp = Some 100,
                   assigned_assistants = Some [''Earth'']\<rparr>)\<rparr>)"
  by (simp add: first_submission_def submit_task_def Let_def init_eq store_of_0
        new_task_id_def str_int_def py_int_def str_nat.simps digit_char_def example_task_def
        typed_task_def determine_required_assistants_def)

lemma after_processing_eq:
  "after_processing =
     (Inr (),
      (snd first_submission)
       \<lparr>task_queue := [],
        results :=
         [(''task_100_0'',
           \<lparr>status = ''success'',
            assistant_results = [(''Earth'', [(''status'', PStr ''success'')])],
            final_result =
              Some \<lparr>cr_status = ''success'', cr_timestamp = 100,
                    components = [(''Earth'', [(''status'', PStr ''success'')])],
                    generated_code = Some PNone, syntax_validation = None,
                    performance_analysis = None\<rparr>,
            feedback = None\<rparr>)]\<rparr>)"
  by (simp add: after_processing_def first_submission_eq process_tasks_def process_one_def
        collect_result_def store_result_def process_task_with_assistant_def ok_assistant_def
        combine_results_def build_combined_result_def all_successful_def
        extract_field_def py_get_def pending_result_def Let_def)

lemma second_submission_eq:
  "fst second_submission = Inr ''task_100_0''"
  "task_queue (snd second_submission) = [Suc 0]"
  "results (snd second_submission) = [(''task_100_0'', pending_result)]"
  "task_type (task_objects (snd second_submission) (Suc 0)) = Some (PStr ''syntax_check'')"
  "task_id (task_objects (snd second_submission) (Suc 0)) = Some ''task_100_0''"
  by (simp_all add: second_submission_def after_processing_eq first_submission_eq
        submit_task_def Let_def store_of_1 new_task_id_def str_int_def py_int_def
        str_nat.simps digit_char_def example_task_def typed_task_def
        determine_required_assistants_def)

text \<open>
  Claim C3 fails on the code: the id is \<^verbatim>\<open>task_\<close>, the clock reading in whole seconds and
  the length of the queue, so the two submissions above, which see the same second and the
  same (empty) queue, return the same id although they are different tasks.
\<close>

theorem submit_task_id_collision:
  "fst first_submission = Inr ''task_100_0''
   \<and> fst after_processing = Inr ()
   \<and> fst second_submission = Inr ''task_100_0''
   \<and> fst second_submission = fst first_submission
   \<and> map (\<lambda>a. task_type (task_objects (snd first_submission) a)) (task_queue (snd first_submission))
       = [Some (PStr ''code_generation'')]
   \<and> map (\<lambda>a. task_type (task_objects (snd second_submission) a))
         (task_queue (snd second_submission))
       = [Some (PStr ''syntax_check'')]"
  by (simp add: second_submission_eq)
     (simp add: first_submission_eq after_processing_eq)

text \<open>
  Claim C10 fails on the code through the same reuse of an id: the record of the first
  task, which processing had set to \<open>success\<close>, is replaced by the second submission and
  its status is \<open>pending\<close> again, its final result gone.
\<close>

theorem status_reset_by_resubmission:
  "map_option status (map_of (results (snd after_processing)) ''task_100_0'') = Some ''success''
   \<and> map_option status (map_of (results (snd second_submission)) ''task_100_0'') = Some ''pending''
   \<and> map_option final_result (map_of (results (snd second_submission)) ''task_100_0'') = Some None"
  by (simp add: second_submission_eq)
     (simp add: after_processing_eq pending_result_def)

section \<open>The id determines the length of the queue\<close>

lemma upt_10: "[0..<10] = [0, 1, 2, 3, 4, 5, 6, 7, 8, 9]"
  by (simp add: upt_conv_Cons)

lemma lt_10_cases:
  "d < 10 \<Longrightarrow> d = 0 \<or> d = 1 \<or> d = 2 \<or> d = 3 \<or> d = 4 \<or> d = 5 \<or> d = 6 \<or> d = 7 \<or> d = 8 \<or> d = (9::nat)"
  by arith

lemma digit_val_digit_char: "d < 10 \<Longrightarrow> digit_val (digit_char d) = d"
  by (drule lt_10_cases) (auto simp: digit_val_def digit_char_def upt_10)

lemma digit_char_not_underscore: "d < 10 \<Longrightarrow> digit_char d \<noteq> CHR ''_''"
  by (drule lt_10_cases) (auto simp: digit_char_def)

lemma str_nat_no_underscore: "CHR ''_'' \<notin> set (str_nat n)"
proof (induction n rule: str_nat.induct)
  case (1 n)
  show ?case
  proof (cases "n < 10")
    case True
    then show ?thesis
      using digit_char_not_underscore [of n] by (subst str_nat.simps) auto
  next
    case False
    have "n mod 10 < 10" by simp
    then have "digit_char (n mod 10) \<noteq> CHR ''_''" by (rule digit_char_not_underscore)
    with False 1 show ?thesis by (subst str_nat.simps) auto
  qed
qed

lemma digits_value_snoc:
  "digits_value (cs @ [c]) = 10 * digits_value cs + digit_val c"
  by (simp add: digits_value_def)

lemma digits_value_str_nat: "digits_value (str_nat n) = n"
proof (induction n rule: str_nat.induct)
  case (1 n)
  show ?case
  proof (cases "n < 10")
    case True
    then show ?thesis
      by (subst str_nat.simps) (simp add: digits_value_def digit_val_digit_char)
  next
    case False
    with 1 have "digits_value (str_nat (n div 10)) = n div 10" by simp
    with False show ?thesis
      by (subst str_nat.simps) (simp add: digits_value_snoc digit_val_digit_char)
  qed
qed

lemma str_nat_inj: "str_nat m = str_nat n \<Longrightarrow> m = n"
  by (metis digits_value_str_nat)

lemma underscore_suffix_unique:
  assumes "x @ CHR ''_'' # d1 = y @ CHR ''_'' # d2"
    and "CHR ''_'' \<notin> set d1" and "CHR ''_'' \<notin> set d2"
  shows "d1 = d2"
proof -
  have "rev d1 @ CHR ''_'' # rev x = rev d2 @ CHR ''_'' # rev y"
    using arg_cong [OF assms(1), of rev] by simp
  then have "takeWhile (\<lambda>c. c \<noteq> CHR ''_'') (rev d1 @ CHR ''_'' # rev x)
           = takeWhile (\<lambda>c. c \<noteq> CHR ''_'') (rev d2 @ CHR ''_'' # rev y)"
    by simp
  moreover have "takeWhile (\<lambda>c. c \<noteq> CHR ''_'') (rev d1 @ CHR ''_'' # rev x) = rev d1"
    using assms(2) by (auto simp: takeWhile_tail)
  moreover have "takeWhile (\<lambda>c. c \<noteq> CHR ''_'') (rev d2 @ CHR ''_'' # rev y) = rev d2"
    using assms(3) by (auto simp: takeWhile_tail)
  ultimately have "rev d1 = rev d2" by simp
  then show ?thesis by simp
qed

lemma new_task_id_queue_len:
  assumes "new_task_id a i = new_task_id b j"
  shows "i = j"
proof -
  from assms have "(''task_'' @ str_int (py_int a)) @ CHR ''_'' # str_nat i
                 = (''task_'' @ str_int (py_int b)) @ CHR ''_'' # str_nat j"
    by (simp add: new_task_id_def)
  then have "str_nat i = str_nat j"
    by (rule underscore_suffix_unique) (rule str_nat_no_underscore)+
  then show ?thesis by (rule str_nat_inj)
qed

section \<open>Every orchestrator that the operations build is well formed\<close>

lemma status_ready_iff:
  "status_ready s \<longleftrightarrow>
     (\<forall>n \<in> fst ` set (assistants s). map_of ASSISTANTS n \<noteq> None)
     \<and> (\<forall>a \<in> set (task_queue s). assigned_assistants (task_objects s a) \<noteq> None)"
  by (auto simp: status_ready_def list_all_iff)

lemma queue_indexed_same_object:
  assumes "queue_indexed s"
  shows "same_id_same_object s"
  unfolding same_id_same_object_iff
proof (intro ballI impI)
  fix a b
  assume a: "a \<in> set (task_queue s)" and b: "b \<in> set (task_queue s)"
    and eq: "task_id (task_objects s a) = task_id (task_objects s b)"
  from a obtain i where i: "i < length (task_queue s)" "task_queue s ! i = a"
    by (auto simp: in_set_conv_nth)
  from b obtain i' where i': "i' < length (task_queue s)" "task_queue s ! i' = b"
    by (auto simp: in_set_conv_nth)
  from assms i obtain now j where
    j: "task_queue s ! j = a" "task_id (task_objects s a) = Some (new_task_id now j)"
    unfolding queue_indexed_def by blast
  from assms i' obtain now' j' where
    j': "task_queue s ! j' = b" "task_id (task_objects s b) = Some (new_task_id now' j')"
    unfolding queue_indexed_def by blast
  from eq j(2) j'(2) have "new_task_id now j = new_task_id now' j'" by simp
  then have "j = j'" by (rule new_task_id_queue_len)
  with j(1) j'(1) show "a = b" by simp
qed

lemma well_formed_init: "well_formed (init earth moon sun objects)"
  by (simp add: well_formed_def init_eq status_ready_def queue_ready_def queue_indexed_def
        statuses_ok_def ASSISTANTS_def)

lemma known_status_pending: "known_status (status pending_result)"
  by (simp add: known_status_def pending_result_def)

lemma type_hashable_cong:
  "task_type t' = task_type t \<Longrightarrow> type_hashable t' = type_hashable t"
  by (simp add: type_hashable_def)

lemma well_formed_submit:
  assumes "well_formed s"
  shows "well_formed (snd (submit_task s now_id now_ts a))"
proof -
  define h where "h = task_objects s"
  define q where "q = task_queue s"
  define tid where "tid = new_task_id now_id (length q)"
  from assms have ne: "assistants s \<noteq> []" and sr: "status_ready s" and qr: "queue_ready s"
    and dk: "distinct (map fst (results s))" and qi: "queue_indexed s" and ok: "statuses_ok s"
    and hs: "\<forall>b \<in> set q. type_hashable (h b)"
    by (simp_all add: well_formed_def h_def q_def)
  show ?thesis
  proof (cases "determine_required_assistants (h a)")
    case (Inl e)
    then have "\<not> type_hashable (h a)" by (simp add: determine_required_assistants_hashable)
    with hs have fresh: "a \<notin> set q" by auto
    define t1 where "t1 = (h a)\<lparr>task_id := Some tid, task_status := Some ''pending'',
                                 task_timestamp := Some now_ts\<rparr>"
    define s' where "s' = s\<lparr>task_objects := h(a := t1)\<rparr>"
    have st: "snd (submit_task s now_id now_ts a) = s'"
      using Inl by (simp add: submit_task_raises h_def s'_def t1_def tid_def q_def)
    have s'_as: "assistants s' = assistants s" and s'_q: "task_queue s' = q"
      and s'_rs: "results s' = results s"
      by (simp_all add: s'_def q_def)
    have s'_h: "\<And>b. b \<in> set q \<Longrightarrow> task_objects s' b = h b"
      using fresh by (auto simp: s'_def)
    have a1: "assistants s' \<noteq> []" using ne s'_as by simp
    have b1: "status_ready s'"
      using sr unfolding status_ready_iff s'_as s'_q by (simp add: s'_h q_def h_def)
    have c1: "queue_ready s'"
      using qr unfolding queue_ready_iff s'_q s'_rs by (simp add: s'_h q_def h_def)
    have d1: "distinct (map fst (results s'))" using dk s'_rs by simp
    have e1: "queue_indexed s'"
      unfolding queue_indexed_def s'_q
    proof (intro allI impI)
      fix i assume i: "i < length q"
      with qi obtain now j where
        j: "j < length q" "q ! j = q ! i" "task_id (h (q ! i)) = Some (new_task_id now j)"
        unfolding queue_indexed_def q_def h_def by blast
      from i have "q ! i \<in> set q" by simp
      then have "task_objects s' (q ! i) = h (q ! i)" by (rule s'_h)
      with j show "\<exists>now j. j < length q \<and> q ! j = q ! i
          \<and> task_id (task_objects s' (q ! i)) = Some (new_task_id now j)"
        by auto
    qed
    have f1: "statuses_ok s'" using ok by (simp add: statuses_ok_def s'_rs)
    have g1: "\<forall>b \<in> set (task_queue s'). type_hashable (task_objects s' b)"
      using hs unfolding s'_q by (simp add: s'_h)
    from a1 b1 c1 d1 e1 f1 g1 show ?thesis unfolding st well_formed_def by (intro conjI)
  next
    case (Inr names)
    have ha: "type_hashable (h a)"
    proof (rule ccontr)
      assume "\<not> type_hashable (h a)"
      then have "\<forall>ns. determine_required_assistants (h a) \<noteq> Inr ns"
        by (auto simp: type_hashable_def determine_required_assistants_cases
              split: option.splits pyval.splits)
      with Inr show False by simp
    qed
    define t2 where "t2 = (h a)\<lparr>task_id := Some tid, task_status := Some ''pending'',
                                 task_timestamp := Some now_ts,
                                 assigned_assistants := Some names\<rparr>"
    define s' where "s' = s\<lparr>task_objects := h(a := t2), task_queue := q @ [a],
                            results := AList.update tid pending_result (results s)\<rparr>"
    have st: "snd (submit_task s now_id now_ts a) = s'"
      using Inr by (simp add: submit_task_returns h_def s'_def t2_def tid_def q_def)
    have s'_as: "assistants s' = assistants s" and s'_q: "task_queue s' = q @ [a]"
      and s'_rs: "results s' = AList.update tid pending_result (results s)"
      by (simp_all add: s'_def)
    have s'_a: "task_objects s' a = t2" by (simp add: s'_def)
    have s'_h: "\<And>b. b \<noteq> a \<Longrightarrow> task_objects s' b = h b" by (simp add: s'_def)
    have t2_id: "task_id t2 = Some tid" and t2_as: "assigned_assistants t2 = Some names"
      and t2_ty: "task_type t2 = task_type (h a)"
      by (simp_all add: t2_def)
    have keep: "\<And>k. map_of (results s) k \<noteq> None \<Longrightarrow> map_of (results s') k \<noteq> None"
      by (simp add: s'_rs update_conv')
    have a1: "assistants s' \<noteq> []" using ne s'_as by simp
    have b1: "status_ready s'"
      unfolding status_ready_iff s'_as s'_q
    proof (intro conjI ballI)
      fix n assume "n \<in> fst ` set (assistants s)"
      with sr show "map_of ASSISTANTS n \<noteq> None" unfolding status_ready_iff by blast
    next
      fix b assume b: "b \<in> set (q @ [a])"
      show "assigned_assistants (task_objects s' b) \<noteq> None"
      proof (cases "b = a")
        case True
        then show ?thesis by (simp add: s'_a t2_as)
      next
        case False
        with b have "b \<in> set q" by simp
        with sr have "assigned_assistants (h b) \<noteq> None"
          unfolding status_ready_iff q_def h_def by blast
        with False show ?thesis by (simp add: s'_h)
      qed
    qed
    have c1: "queue_ready s'"
      unfolding queue_ready_iff s'_q
    proof
      fix b assume b: "b \<in> set (q @ [a])"
      show "\<exists>tid' names'. task_id (task_objects s' b) = Some tid'
          \<and> assigned_assistants (task_objects s' b) = Some names'
          \<and> map_of (results s') tid' \<noteq> None"
      proof (cases "b = a")
        case True
        have "map_of (results s') tid \<noteq> None" by (simp add: s'_rs update_conv')
        with True show ?thesis by (simp add: s'_a t2_id t2_as)
      next
        case False
        with b have "b \<in> set q" by simp
        with qr obtain tid' names' where
          o: "task_id (h b) = Some tid'" "assigned_assistants (h b) = Some names'"
             "map_of (results s) tid' \<noteq> None"
          unfolding queue_ready_iff q_def h_def by blast
        from o(3) have "map_of (results s') tid' \<noteq> None" by (rule keep)
        with o(1,2) False show ?thesis by (simp add: s'_h)
      qed
    qed
    have d1: "distinct (map fst (results s'))"
      unfolding s'_rs using dk by (rule distinct_update)
    have e1: "queue_indexed s'"
      unfolding queue_indexed_def s'_q
    proof (intro allI impI)
      fix i assume i: "i < length (q @ [a])"
      show "\<exists>now j. j < length (q @ [a]) \<and> (q @ [a]) ! j = (q @ [a]) ! i
          \<and> task_id (task_objects s' ((q @ [a]) ! i)) = Some (new_task_id now j)"
      proof (cases "(q @ [a]) ! i = a")
        case True
        have "length q < length (q @ [a])" "(q @ [a]) ! length q = a" by simp_all
        moreover have "task_id (task_objects s' a) = Some (new_task_id now_id (length q))"
          by (simp add: s'_a t2_id tid_def)
        ultimately show ?thesis using True by metis
      next
        case False
        then have il: "i < length q"
          using i by (cases "i = length q") auto
        then have qi': "(q @ [a]) ! i = q ! i" by (simp add: nth_append)
        with False have ne_a: "q ! i \<noteq> a" by simp
        from qi il obtain now j where
          j: "j < length q" "q ! j = q ! i" "task_id (h (q ! i)) = Some (new_task_id now j)"
          unfolding queue_indexed_def q_def h_def by blast
        have "j < length (q @ [a])" using j(1) by simp
        moreover have "(q @ [a]) ! j = (q @ [a]) ! i"
          using j(1,2) il by (simp add: nth_append)
        moreover have "task_id (task_objects s' ((q @ [a]) ! i)) = Some (new_task_id now j)"
          using j(3) ne_a by (simp add: qi' s'_h)
        ultimately show ?thesis by blast
      qed
    qed
    have f1: "statuses_ok s'"
      using ok known_status_pending
      by (auto simp: statuses_ok_def s'_rs update_conv' split: if_splits)
    have g1: "\<forall>b \<in> set (task_queue s'). type_hashable (task_objects s' b)"
      unfolding s'_q
    proof
      fix b assume b: "b \<in> set (q @ [a])"
      show "type_hashable (task_objects s' b)"
      proof (cases "b = a")
        case True
        have "type_hashable t2 = type_hashable (h a)" using t2_ty by (rule type_hashable_cong)
        with ha True show ?thesis by (simp add: s'_a)
      next
        case False
        with b have "b \<in> set q" by simp
        with hs False show ?thesis by (simp add: s'_h)
      qed
    qed
    from a1 b1 c1 d1 e1 f1 g1 show ?thesis unfolding st well_formed_def by (intro conjI)
  qed
qed

lemma known_status_finalized: "known_status (status (finalized now q))"
  by (simp add: known_status_def finalized_status)

lemma well_formed_process:
  assumes "well_formed s"
  shows "fst (process_tasks s clock) = Inr () \<and> well_formed (snd (process_tasks s clock))"
proof -
  from assms have ne: "assistants s \<noteq> []" and sr: "status_ready s" and qr: "queue_ready s"
    and dk: "distinct (map fst (results s))" and qi: "queue_indexed s" and ok: "statuses_ok s"
    by (simp_all add: well_formed_def)
  have ready: "\<forall>a \<in> set (task_queue s). \<exists>tid names. task_id (task_objects s a) = Some tid
      \<and> assigned_assistants (task_objects s a) = Some names \<and> map_of (results s) tid \<noteq> None"
    using qr by (simp add: queue_ready_iff)
  have same: "\<forall>a \<in> set (task_queue s). \<forall>b \<in> set (task_queue s).
        task_id (task_objects s a) = task_id (task_objects s b) \<longrightarrow> a = b"
    using queue_indexed_same_object [OF qi] by (simp add: same_id_same_object_iff)
  from process_loop_ok [OF ready same, of clock 0] obtain s' where
    run: "process_loop clock 0 (task_queue s) s = (Inr (), s')"
    and as: "assistants s' = assistants s"
    and q: "task_queue s' = (if task_queue s = [] then task_queue s else [])"
    and keys: "map fst (results s') = map fst (results s)"
    and other: "\<forall>k. (\<forall>a \<in> set (task_queue s). task_id (task_objects s a) \<noteq> Some k) \<longrightarrow>
                  map_of (results s') k = map_of (results s) k"
    and fin: "\<forall>a \<in> set (task_queue s). \<forall>tid names.
                 task_id (task_objects s a) = Some tid \<longrightarrow>
                 assigned_assistants (task_objects s a) = Some names \<longrightarrow>
                 (\<exists>j r. map_of (results s') tid =
                    Some (finalized (clock j) (collected s (task_objects s a) names r)))"
    by blast
  have pt: "process_tasks s clock = (Inr (), s')"
    using ne run by (simp add: process_tasks_def)
  have q': "task_queue s' = []" using q by (simp split: if_splits)
  have a: "assistants s' \<noteq> []" using ne as by simp
  have b: "status_ready s'" using sr as q' by (simp add: status_ready_def)
  have c: "queue_ready s'" using q' by (simp add: queue_ready_def)
  have d: "distinct (map fst (results s'))" using dk keys by simp
  have e: "queue_indexed s'" using q' by (simp add: queue_indexed_def)
  have f: "statuses_ok s'"
    unfolding statuses_ok_def
  proof (intro allI impI)
    fix tid r assume look: "map_of (results s') tid = Some r"
    show "known_status (status r)"
    proof (cases "\<exists>a \<in> set (task_queue s). task_id (task_objects s a) = Some tid")
      case True
      then obtain a where a: "a \<in> set (task_queue s)" "task_id (task_objects s a) = Some tid"
        by blast
      with ready obtain names where
        n: "assigned_assistants (task_objects s a) = Some names"
        by fastforce
      from fin a n obtain j r0 where "map_of (results s') tid =
          Some (finalized (clock j) (collected s (task_objects s a) names r0))"
        by blast
      with look have "r = finalized (clock j) (collected s (task_objects s a) names r0)"
        by simp
      then show ?thesis by (simp only: known_status_finalized)
    next
      case False
      with other look have "map_of (results s) tid = Some r" by simp
      with ok show ?thesis unfolding statuses_ok_def by blast
    qed
  qed
  have g: "\<forall>a \<in> set (task_queue s'). type_hashable (task_objects s' a)"
    using q' by simp
  from a b c d e f g have "well_formed s'" unfolding well_formed_def by (intro conjI)
  with pt show ?thesis by simp
qed

lemma handle_feedback_frame:
  "task_queue (snd (handle_feedback s tid fb)) = task_queue s
   \<and> task_objects (snd (handle_feedback s tid fb)) = task_objects s
   \<and> map fst (assistants (snd (handle_feedback s tid fb))) = map fst (assistants s)
   \<and> (results (snd (handle_feedback s tid fb)) = results s
      \<or> (\<exists>r. map_of (results s) tid = Some r
            \<and> results (snd (handle_feedback s tid fb)) =
                AList.update tid (r\<lparr>feedback := Some fb, status := ''completed_with_feedback''\<rparr>)
                  (results s)))"
proof (cases "map_of (results s) tid")
  case None
  then show ?thesis by (simp add: handle_feedback_def)
next
  case (Some r)
  obtain res s1 where rf: "route_feedback s (feedback_items fb) = (res, s1)"
    by (cases "route_feedback s (feedback_items fb)")
  from route_feedback_frame [of s "feedback_items fb"] rf have
    fr: "task_queue s1 = task_queue s" "results s1 = results s"
        "map fst (assistants s1) = map fst (assistants s)" "task_objects s1 = task_objects s"
    by simp_all
  show ?thesis
  proof (cases res)
    case (Inl e)
    with Some rf fr show ?thesis by (simp add: handle_feedback_def)
  next
    case (Inr u)
    with Some rf fr show ?thesis by (simp add: handle_feedback_def)
  qed
qed

lemma well_formed_feedback:
  assumes "well_formed s"
  shows "well_formed (snd (handle_feedback s tid fb))"
proof -
  define s' where "s' = snd (handle_feedback s tid fb)"
  from assms have ne: "assistants s \<noteq> []" and sr: "status_ready s" and qr: "queue_ready s"
    and dk: "distinct (map fst (results s))" and qi: "queue_indexed s" and ok: "statuses_ok s"
    and hs: "\<forall>b \<in> set (task_queue s). type_hashable (task_objects s b)"
    by (simp_all add: well_formed_def)
  from handle_feedback_frame [of s tid fb] have
    q: "task_queue s' = task_queue s"
    and h: "task_objects s' = task_objects s"
    and keys: "map fst (assistants s') = map fst (assistants s)"
    and rs: "results s' = results s
      \<or> (\<exists>r. map_of (results s) tid = Some r
            \<and> results s' =
                AList.update tid (r\<lparr>feedback := Some fb, status := ''completed_with_feedback''\<rparr>)
                  (results s))"
    by (simp_all add: s'_def)
  have a: "assistants s' \<noteq> []"
  proof
    assume "assistants s' = []"
    with keys have "map fst (assistants s) = []" by simp
    with ne show False by simp
  qed
  have "status_ready s' = status_ready s" using keys q h by (rule status_ready_cong)
  with sr have b: "status_ready s'" by simp
  have e: "queue_indexed s'" using qi q h by (simp add: queue_indexed_def)
  have g: "\<forall>b \<in> set (task_queue s'). type_hashable (task_objects s' b)"
    using hs q h by simp
  have keep: "\<And>k. map_of (results s) k \<noteq> None \<Longrightarrow> map_of (results s') k \<noteq> None"
    using rs by (auto simp: update_conv')
  have c: "queue_ready s'"
    using qr keep unfolding queue_ready_iff q h by blast
  from rs have "distinct (map fst (results s')) \<and> statuses_ok s'"
  proof
    assume same: "results s' = results s"
    have "distinct (map fst (results s'))" using dk same by simp
    moreover have "statuses_ok s'" using ok same by (simp add: statuses_ok_def)
    ultimately show ?thesis by (intro conjI)
  next
    assume "\<exists>r. map_of (results s) tid = Some r
            \<and> results s' =
                AList.update tid (r\<lparr>feedback := Some fb, status := ''completed_with_feedback''\<rparr>)
                  (results s)"
    then obtain r where r: "map_of (results s) tid = Some r"
      and upd: "results s' =
                AList.update tid (r\<lparr>feedback := Some fb, status := ''completed_with_feedback''\<rparr>)
                  (results s)"
      by blast
    have "distinct (map fst (results s'))"
      unfolding upd using dk by (rule distinct_update)
    moreover have "statuses_ok s'"
      using ok unfolding statuses_ok_def upd
      by (auto simp: update_conv' known_status_def split: if_splits)
    ultimately show ?thesis by (intro conjI)
  qed
  with a b c e g show ?thesis unfolding well_formed_def s'_def [symmetric] by simp
qed

lemma reachable_well_formed: "reachable s \<Longrightarrow> well_formed s"
proof (induction rule: reachable.induct)
  case (reachable_init earth moon sun objects)
  show ?case by (rule well_formed_init)
next
  case (reachable_submit s now_id now_ts a)
  then show ?case by (intro well_formed_submit)
next
  case (reachable_process s clock)
  then show ?case using well_formed_process [of s clock] by simp
next
  case (reachable_feedback s tid fb)
  then show ?case by (intro well_formed_feedback)
qed

text \<open>
  So the conditions under which the theorems on \<^verbatim>\<open>process_tasks\<close> and on the counter
  of completed tasks are stated hold of every orchestrator that the operations build (also
  when a dictionary is submitted twice, or a submission raises), no record of such an
  orchestrator has the status \<open>error\<close>, and \<^verbatim>\<open>process_tasks\<close> never raises on it.
\<close>

lemma reachable_ready:
  assumes "reachable s"
  shows "assistants s \<noteq> []" and "queue_ready s" and "same_id_same_object s"
    and "status_ready s" and "distinct (map fst (results s))"
proof -
  from assms have wf: "well_formed s" by (rule reachable_well_formed)
  then show "assistants s \<noteq> []" "queue_ready s" "status_ready s" "distinct (map fst (results s))"
    by (simp_all add: well_formed_def)
  from wf have "queue_indexed s" by (simp add: well_formed_def)
  then show "same_id_same_object s" by (rule queue_indexed_same_object)
qed

lemma reachable_status_known:
  assumes "reachable s" and "map_of (results s) tid = Some r"
  shows "known_status (status r)" and "status r \<noteq> ''error''"
proof -
  from assms(1) have "statuses_ok s"
    using reachable_well_formed by (auto simp: well_formed_def)
  with assms(2) show k: "known_status (status r)" unfolding statuses_ok_def by blast
  then show "status r \<noteq> ''error''" by (auto simp: known_status_def)
qed

lemma reachable_process_returns:
  "reachable s \<Longrightarrow> fst (process_tasks s clock) = Inr ()"
  using well_formed_process [of s clock] reachable_well_formed by blast

end
